theory Spec2Isabelle
  imports Complex_Main
begin

section \<open>Python values and errors\<close>

text \<open>
  The functions of \<^verbatim>\<open>rasterio/features.py\<close> take GeoJSON-like objects: nested
  dictionaries, sequences, strings and numbers. \<open>PList\<close> stands for both Python lists
  and tuples (the code only takes their length, indexes and iterates them), \<open>PDict\<close>
  for a dictionary with string keys, as an association list whose keys are distinct,
  and \<open>PGeo kvs\<close> for an object that is no container itself and whose attribute
  \<^verbatim>\<open>__geo_interface__\<close> is the dictionary \<open>kvs\<close>.

  A Python number is an unbounded integer or a finite binary floating-point number
  \<open>m * 2 ^ e\<close>, written \<open>PyFloat m e\<close>.
\<close>

datatype pynum = PyInt int | PyFloat int int

datatype pyobj =
    PNone
  | PBool bool
  | PNum pynum
  | PStr string
  | PList "pyobj list"
  | PDict "(string \<times> pyobj) list"
  | PGeo "(string \<times> pyobj) list"

text \<open>
  The numpy dtype names the code can meet: the seven of \<open>valid_dtypes\<close> and some that
  numpy knows and the code refuses.
\<close>

datatype npdtype =
    Int8 | Int16 | Int32 | Int64
  | UInt8 | UInt16 | UInt32 | UInt64
  | Float16 | Float32 | Float64
  | Bool8 | Complex128

text \<open>
  Every exception the modelled code can raise. All errors that \<open>rasterize\<close> raises
  itself are Python \<^verbatim>\<open>ValueError\<close>s that differ in their message: \<open>InvalidDtype p\<close> is
  \<^verbatim>\<open>format_invalid_dtype(p)\<close>, \<open>CastError p d\<close> is \<^verbatim>\<open>format_cast_error(p, d)\<close>;
  \<open>UnpackError\<close> is the \<^verbatim>\<open>ValueError\<close> of \<^verbatim>\<open>geom, value = item\<close> for an item that has
  not two elements. \<open>NativeError\<close> is an exception that the native \<^verbatim>\<open>_rasterize\<close>
  raises, of whatever class.
\<close>

datatype pyerr =
    TypeError
  | KeyError
  | IndexError
  | ZeroDivisionError
  | AttributeError
  | InvalidDtype string
  | CastError string npdtype
  | NoValidGeometry
  | InvalidOutShape
  | NoOutShapeOrImage
  | ZeroSize
  | UnpackError
  | NativeError
  | WindowError
  | NotInvertible

text \<open>The exceptions that the statements of this module raise as a \<^verbatim>\<open>ValueError\<close>.\<close>

fun is_ValueError :: "pyerr \<Rightarrow> bool" where
  "is_ValueError (InvalidDtype p) = True"
| "is_ValueError (CastError p d) = True"
| "is_ValueError NoValidGeometry = True"
| "is_ValueError InvalidOutShape = True"
| "is_ValueError NoOutShapeOrImage = True"
| "is_ValueError ZeroSize = True"
| "is_ValueError UnpackError = True"
| "is_ValueError e = False"

subsection \<open>The Python operations the validator uses\<close>

fun truthy :: "pyobj \<Rightarrow> bool" where
  "truthy PNone = False"
| "truthy (PBool b) = b"
| "truthy (PNum (PyInt n)) = (n \<noteq> 0)"
| "truthy (PNum (PyFloat m e)) = (m \<noteq> 0)"
| "truthy (PStr s) = (s \<noteq> [])"
| "truthy (PList xs) = (xs \<noteq> [])"
| "truthy (PDict kvs) = (kvs \<noteq> [])"
| "truthy (PGeo i) = True"

text \<open>\<^verbatim>\<open>getattr(geom, '__geo_interface__', None) or geom\<close>\<close>

fun geo_interface :: "pyobj \<Rightarrow> pyobj" where
  "geo_interface (PGeo kvs) = (if truthy (PDict kvs) then PDict kvs else PGeo kvs)"
| "geo_interface g = g"

fun starts_with :: "string \<Rightarrow> string \<Rightarrow> bool" where
  "starts_with [] s = True"
| "starts_with (c # p) [] = False"
| "starts_with (c # p) (d # s) = (c = d \<and> starts_with p s)"

fun is_substr :: "string \<Rightarrow> string \<Rightarrow> bool" where
  "is_substr p [] = (p = [])"
| "is_substr p (c # s) = (starts_with p (c # s) \<or> is_substr p s)"

text \<open>\<^verbatim>\<open>k in x\<close> for a string \<open>k\<close>\<close>

fun py_contains :: "string \<Rightarrow> pyobj \<Rightarrow> pyerr + bool" where
  "py_contains k (PDict kvs) = Inr (k \<in> set (map fst kvs))"
| "py_contains k (PList xs) = Inr (PStr k \<in> set xs)"
| "py_contains k (PStr s) = Inr (is_substr k s)"
| "py_contains k x = Inl TypeError"

text \<open>\<^verbatim>\<open>x[k]\<close> for a string \<open>k\<close>\<close>

fun py_getitem :: "pyobj \<Rightarrow> string \<Rightarrow> pyerr + pyobj" where
  "py_getitem (PDict kvs) k = (case map_of kvs k of None \<Rightarrow> Inl KeyError | Some v \<Rightarrow> Inr v)"
| "py_getitem x k = Inl TypeError"

text \<open>\<^verbatim>\<open>len(x)\<close>\<close>

fun py_len :: "pyobj \<Rightarrow> pyerr + nat" where
  "py_len (PList xs) = Inr (length xs)"
| "py_len (PStr s) = Inr (length s)"
| "py_len (PDict kvs) = Inr (length (remdups (map fst kvs)))"
| "py_len x = Inl TypeError"

text \<open>\<^verbatim>\<open>x[0]\<close>; a dictionary with string keys has no key \<open>0\<close>.\<close>

fun py_item0 :: "pyobj \<Rightarrow> pyerr + pyobj" where
  "py_item0 (PList xs) = (case xs of [] \<Rightarrow> Inl IndexError | x # _ \<Rightarrow> Inr x)"
| "py_item0 (PStr s) = (case s of [] \<Rightarrow> Inl IndexError | c # _ \<Rightarrow> Inr (PStr [c]))"
| "py_item0 (PDict kvs) = Inl KeyError"
| "py_item0 x = Inl TypeError"

text \<open>The elements that \<^verbatim>\<open>for g in x\<close> visits.\<close>

fun py_iter :: "pyobj \<Rightarrow> pyerr + pyobj list" where
  "py_iter (PList xs) = Inr xs"
| "py_iter (PStr s) = Inr (map (\<lambda>c. PStr [c]) s)"
| "py_iter (PDict kvs) = Inr (map PStr (remdups (map fst kvs)))"
| "py_iter x = Inl TypeError"

text \<open>\<^verbatim>\<open>len(x[0]...[0])\<close> with \<open>d\<close> subscripts\<close>

fun len_at :: "nat \<Rightarrow> pyobj \<Rightarrow> pyerr + nat" where
  "len_at 0 x = py_len x"
| "len_at (Suc d) x = (case py_item0 x of Inl e \<Rightarrow> Inl e | Inr y \<Rightarrow> len_at d y)"

text \<open>\<^verbatim>\<open>len(x[0]...[0]) >= n\<close>\<close>

definition len_ge :: "nat \<Rightarrow> nat \<Rightarrow> pyobj \<Rightarrow> pyerr + bool" where
  "len_ge d n x = (case len_at d x of Inl e \<Rightarrow> Inl e | Inr l \<Rightarrow> Inr (n \<le> l))"

text \<open>Python's \<^verbatim>\<open>a and b\<close> on conditions that may raise: \<open>b\<close> is evaluated only if \<open>a\<close> is true.\<close>

definition and_then :: "pyerr + bool \<Rightarrow> pyerr + bool \<Rightarrow> pyerr + bool" where
  "and_then a b = (case a of Inl e \<Rightarrow> Inl e | Inr t \<Rightarrow> if t then b else Inr False)"

text \<open>
  The loop \<^verbatim>\<open>for g in gs: if not f(g): return False\<close>, followed by \<^verbatim>\<open>return True\<close>.
\<close>

fun all_members :: "('a \<Rightarrow> pyerr + bool) \<Rightarrow> 'a list \<Rightarrow> pyerr + bool" where
  "all_members f [] = Inr True"
| "all_members f (g # gs) =
     (case f g of Inl e \<Rightarrow> Inl e | Inr b \<Rightarrow> if b then all_members f gs else Inr False)"

lemma all_members_cong [fundef_cong]:
  "xs = ys \<Longrightarrow> (\<And>x. x \<in> set ys \<Longrightarrow> f x = g x) \<Longrightarrow> all_members f xs = all_members g ys"
  by (induction ys arbitrary: xs) (auto split: sum.splits)

lemma size_map_of: "map_of kvs k = Some v \<Longrightarrow> size v < size (PDict kvs)"
  by (induction kvs) (auto split: if_splits)

lemma size_py_getitem: "py_getitem x k = Inr v \<Longrightarrow> size v < size x"
  by (cases x) (auto split: option.splits dest: size_map_of)

lemma size_py_iter: "py_iter v = Inr xs \<Longrightarrow> x \<in> set xs \<Longrightarrow> size x \<le> size v"
proof (cases v)
  case (PList ys)
  assume "py_iter v = Inr xs" "x \<in> set xs"
  with PList have "x \<in> set ys" by simp
  then have "size x \<le> size_list size ys" by (induction ys) auto
  with PList show ?thesis by simp
qed auto

lemma size_geo_interface: "size (geo_interface g) \<le> size g"
  by (cases g) auto

section \<open>The geometry validator\<close>

definition geom_types :: "string list" where
  "geom_types = [''Point'', ''MultiPoint'', ''LineString'', ''LinearRing'',
                 ''MultiLineString'', ''Polygon'', ''MultiPolygon'']"

text \<open>
  The checks of \<^verbatim>\<open>is_valid_geom\<close> on the coordinates of the seven coordinate types,
  in the order of the source.
\<close>

definition check_coords :: "string \<Rightarrow> pyobj \<Rightarrow> pyerr + bool" where
  "check_coords t coords =
    (if t = ''Point'' then len_ge 0 2 coords
     else if t = ''MultiPoint'' then
       and_then (len_ge 0 1 coords) (len_ge 1 2 coords)
     else if t = ''LineString'' then
       and_then (len_ge 0 2 coords) (len_ge 1 2 coords)
     else if t = ''LinearRing'' then
       and_then (len_ge 0 4 coords) (len_ge 1 2 coords)
     else if t = ''MultiLineString'' then
       and_then (len_ge 0 1 coords) (and_then (len_ge 1 2 coords) (len_ge 2 2 coords))
     else if t = ''Polygon'' then
       and_then (len_ge 0 1 coords) (and_then (len_ge 1 4 coords) (len_ge 2 2 coords))
     else if t = ''MultiPolygon'' then
       and_then (len_ge 0 1 coords)
         (and_then (len_ge 1 1 coords) (and_then (len_ge 2 4 coords) (len_ge 3 2 coords)))
     else Inr True)"

text \<open>
  \<^verbatim>\<open>is_valid_geom\<close>. The \<^verbatim>\<open>try\<close> block catches the \<^verbatim>\<open>TypeError\<close> of subscripting a
  sequence or string with \<^verbatim>\<open>'type'\<close> and of hashing a list or dictionary for the set
  membership test; both return \<^verbatim>\<open>False\<close>.
\<close>

function is_valid_geom :: "pyobj \<Rightarrow> pyerr + bool" where
  "is_valid_geom g =
    (let geom = geo_interface g in
     case py_contains ''type'' geom of
       Inl e \<Rightarrow> Inl e
     | Inr False \<Rightarrow> Inr False
     | Inr True \<Rightarrow>
        (case py_getitem geom ''type'' of
           Inl e \<Rightarrow> (if e = TypeError then Inr False else Inl e)
         | Inr (PStr t) \<Rightarrow>
            if t \<notin> set (geom_types @ [''GeometryCollection'']) then Inr False
            else if t \<in> set geom_types then
              (case py_contains ''coordinates'' geom of
                 Inl e \<Rightarrow> Inl e
               | Inr False \<Rightarrow> Inr False
               | Inr True \<Rightarrow>
                  (case py_getitem geom ''coordinates'' of
                     Inl e \<Rightarrow> Inl e
                   | Inr coords \<Rightarrow> check_coords t coords))
            else
              (case py_contains ''geometries'' geom of
                 Inl e \<Rightarrow> Inl e
               | Inr False \<Rightarrow> Inr False
               | Inr True \<Rightarrow>
                  (case py_getitem geom ''geometries'' of
                     Inl e \<Rightarrow> Inl e
                   | Inr gs \<Rightarrow>
                      (case py_len gs of
                         Inl e \<Rightarrow> Inl e
                       | Inr n \<Rightarrow>
                          if \<not> n > 0 then Inr False
                          else (case py_iter gs of
                                  Inl e \<Rightarrow> Inl e
                                | Inr members \<Rightarrow> all_members is_valid_geom members))))
         | Inr other \<Rightarrow> Inr False))"
  by pat_completeness auto
termination
proof (relation "measure size", goal_cases)
  case 1
  show ?case by simp
next
  case (2 g geom b1 ty t b2 gs n members x)
  have "size gs < size geom" using 2 size_py_getitem by blast
  moreover have "size x \<le> size gs" using 2 size_py_iter by blast
  moreover have "size geom \<le> size g" using 2 size_geo_interface by simp
  ultimately show ?case by simp
qed

declare is_valid_geom.simps [simp del]

text \<open>GeoJSON-like dictionaries, as the callers build them.\<close>

definition geometry :: "string \<Rightarrow> pyobj \<Rightarrow> pyobj" where
  "geometry t coords = PDict [(''type'', PStr t), (''coordinates'', coords)]"

definition collection :: "pyobj list \<Rightarrow> pyobj" where
  "collection gs = PDict [(''type'', PStr ''GeometryCollection''), (''geometries'', PList gs)]"

definition xy :: "int \<Rightarrow> int \<Rightarrow> pyobj" where
  "xy x y = PList [PNum (PyInt x), PNum (PyInt y)]"

subsection \<open>Coordinate sequences that are too short\<close>

text \<open>
  The minimum cardinalities of the coordinate types, on coordinates that are
  sequences as deep as the validator reads them. A coordinate has at least 2
  ordinates; a LineString has at least 2 coordinates and a LinearRing at least 4; a
  Polygon has a ring, and the ring the validator reads (the first) has at least 4
  coordinates; a MultiPoint, MultiLineString or MultiPolygon has a first member, which
  meets the minimum of a Point, a LineString or a Polygon. Of the coordinates of a
  line or ring the validator reads the first. \<open>seq_shorter n c\<close>: \<open>c\<close> is a sequence of
  fewer than \<open>n\<close> elements; \<open>first_fails p c\<close>: \<open>c\<close> is a sequence whose first element
  fails by \<open>p\<close>.
\<close>

definition seq_shorter :: "nat \<Rightarrow> pyobj \<Rightarrow> bool" where
  "seq_shorter n c = (case c of PList xs \<Rightarrow> length xs < n | _ \<Rightarrow> False)"

definition first_fails :: "(pyobj \<Rightarrow> bool) \<Rightarrow> pyobj \<Rightarrow> bool" where
  "first_fails p c = (case c of PList (x # xs) \<Rightarrow> p x | _ \<Rightarrow> False)"

definition line_fails :: "nat \<Rightarrow> pyobj \<Rightarrow> bool" where
  "line_fails n c = (seq_shorter n c \<or> first_fails (seq_shorter 2) c)"

definition polygon_fails :: "pyobj \<Rightarrow> bool" where
  "polygon_fails c = (seq_shorter 1 c \<or> first_fails (line_fails 4) c)"

definition fails_cardinality :: "string \<Rightarrow> pyobj \<Rightarrow> bool" where
  "fails_cardinality t c =
    (if t = ''Point'' then seq_shorter 2 c
     else if t = ''LineString'' then line_fails 2 c
     else if t = ''LinearRing'' then line_fails 4 c
     else if t = ''Polygon'' then polygon_fails c
     else if t = ''MultiPoint'' then seq_shorter 1 c \<or> first_fails (seq_shorter 2) c
     else if t = ''MultiLineString'' then seq_shorter 1 c \<or> first_fails (line_fails 2) c
     else if t = ''MultiPolygon'' then seq_shorter 1 c \<or> first_fails polygon_fails c
     else False)"

section \<open>Rasterization\<close>

subsection \<open>Numbers, arrays and the collaborators of \<open>rasterize\<close>\<close>

text \<open>The rational number a Python number stands for.\<close>

definition num_val :: "pynum \<Rightarrow> rat" where
  "num_val v = (case v of PyInt n \<Rightarrow> of_int n | PyFloat m e \<Rightarrow> of_int m * 2 powi e)"

definition valid_dtypes :: "npdtype list" where
  "valid_dtypes = [Int16, Int32, UInt8, UInt16, UInt32, Float32, Float64]"

datatype MergeAlg = Replace | Add

text \<open>
  An affine transformation with its six coefficients. The argument \<open>transform\<close> of the
  modelled functions is always such an object, on which \<^verbatim>\<open>guard_transform\<close> is the
  identity.
\<close>

datatype affine = Affine rat rat rat rat rat rat

definition IDENTITY :: affine where
  "IDENTITY = Affine 1 0 0 0 1 0"

definition guard_transform :: "affine \<Rightarrow> affine" where
  "guard_transform t = t"

text \<open>
  A two-dimensional numpy array of numbers: its dtype, its shape and its cells in
  row-major order. The array that \<open>rasterize\<close> allocates is filled with \<open>fill\<close>; the
  number is kept as it is, since it has passed \<^verbatim>\<open>can_cast_dtype\<close> for the dtype or
  entered the computation of the dtype by \<^verbatim>\<open>get_minimum_dtype\<close>.
\<close>

record ndarray =
  arr_dtype :: npdtype
  arr_height :: nat
  arr_width :: nat
  cells :: "pynum list"

text \<open>\<^verbatim>\<open>out = np.empty(out_shape, dtype=dtype); out.fill(fill)\<close>\<close>

definition filled :: "npdtype \<Rightarrow> nat \<Rightarrow> nat \<Rightarrow> pynum \<Rightarrow> ndarray" where
  "filled d h w v = \<lparr>arr_dtype = d, arr_height = h, arr_width = w, cells = replicate (h * w) v\<rparr>"

text \<open>
  What \<open>rasterize\<close> imports and \<^verbatim>\<open>src/\<close> does not hold: the three functions of
  \<^verbatim>\<open>rasterio.dtypes\<close>, on the list of the values that the array they are given is made
  of, and the native \<^verbatim>\<open>_rasterize(shapes, out, transform, all_touched, merge_alg)\<close>, which
  writes into \<open>out\<close>, or raises (\<open>None\<close>).
\<close>

record engine =
  validate_dtype :: "pyobj list \<Rightarrow> npdtype list \<Rightarrow> bool"
  can_cast_dtype :: "pyobj list \<Rightarrow> npdtype \<Rightarrow> bool"
  get_minimum_dtype :: "pyobj list \<Rightarrow> npdtype"
  native_rasterize ::
    "(pyobj \<times> pyobj) list \<Rightarrow> ndarray \<Rightarrow> affine \<Rightarrow> bool \<Rightarrow> MergeAlg \<Rightarrow> ndarray option"

subsection \<open>The function \<open>rasterize\<close>\<close>

text \<open>
  The arguments. An item of \<open>shapes\<close> is any object: a tuple or list (\<open>PList\<close>) is taken
  for a pair of a geometry and a value, any other object for a geometry.
\<close>

record rasterize_args =
  shapes :: "pyobj list"
  out_shape :: "nat list option"
  fill :: pynum
  out :: "ndarray option"
  transform :: affine
  all_touched :: bool
  merge_alg :: MergeAlg
  default_value :: pynum
  dtype :: "npdtype option"

text \<open>The defaults of the keyword arguments.\<close>

definition rasterize_defaults :: "pyobj list \<Rightarrow> rasterize_args" where
  "rasterize_defaults xs =
     \<lparr>shapes = xs, out_shape = None, fill = PyInt 0, out = None, transform = IDENTITY,
      all_touched = False, merge_alg = Replace, default_value = PyInt 1, dtype = None\<rparr>"

text \<open>
  The checks on \<open>fill\<close> and on \<open>default_value\<close> (lines 241 to 255); the second message
  of the source for \<open>default_value\<close> names the parameter \<^verbatim>\<open>default_vaue\<close>.
\<close>

definition check_param :: "engine \<Rightarrow> string \<Rightarrow> string \<Rightarrow> pynum \<Rightarrow> npdtype option \<Rightarrow> pyerr option" where
  "check_param eng name cast_name v dt =
     (if \<not> validate_dtype eng [PNum v] valid_dtypes then Some (InvalidDtype name)
      else case dt of
             None \<Rightarrow> None
           | Some d \<Rightarrow> if \<not> can_cast_dtype eng [PNum v] d then Some (CastError cast_name d) else None)"

definition prechecks :: "engine \<Rightarrow> rasterize_args \<Rightarrow> pyerr option" where
  "prechecks eng a =
     (case (if num_val (fill a) \<noteq> 0
            then check_param eng ''fill'' ''fill'' (fill a) (dtype a) else None) of
        Some e \<Rightarrow> Some e
      | None \<Rightarrow>
         (case (if num_val (default_value a) \<noteq> 1
                then check_param eng ''default_value'' ''default_vaue'' (default_value a) (dtype a)
                else None) of
            Some e \<Rightarrow> Some e
          | None \<Rightarrow>
             (case dtype a of
                None \<Rightarrow> None
              | Some d \<Rightarrow> if d \<notin> set valid_dtypes then Some (InvalidDtype ''dtype'') else None)))"

text \<open>
  The state of the loop over \<open>shapes\<close> (lines 260 to 289): the two lists it builds and
  the indexes for which it has emitted the warning
  \<^verbatim>\<open>Invalid or empty shape at index {} will not be rasterized.\<close>
\<close>

record loop_state =
  valid_shapes :: "(pyobj \<times> pyobj) list"
  shape_values :: "pyobj list"
  warned :: "nat list"

definition loop_start :: loop_state where
  "loop_start = \<lparr>valid_shapes = [], shape_values = [], warned = []\<rparr>"

text \<open>
  Lines 263 to 269: \<^verbatim>\<open>isinstance(item, (tuple, list))\<close>, and
  \<^verbatim>\<open>geom, value = item\<close> for a tuple or list, which raises a
  \<^verbatim>\<open>ValueError\<close> unless the item has two elements; the geometry of the item, and its
  value if it has one.
\<close>

fun is_sequence :: "pyobj \<Rightarrow> bool" where
  "is_sequence (PList xs) = True"
| "is_sequence x = False"

definition unpack :: "pyobj \<Rightarrow> pyerr + pyobj \<times> pyobj option" where
  "unpack x =
     (case x of
        PList xs \<Rightarrow> (case xs of [g, v] \<Rightarrow> Inr (g, Some v) | _ \<Rightarrow> Inl UnpackError)
      | _ \<Rightarrow> Inr (x, None))"

text \<open>The value that is burned: \<open>fill\<close> for \<^verbatim>\<open>None\<close>, \<open>default_value\<close> for no value.\<close>

definition burn_value :: "pynum \<Rightarrow> pynum \<Rightarrow> pyobj option \<Rightarrow> pyobj" where
  "burn_value fill_v default_v v =
     (case v of None \<Rightarrow> PNum default_v | Some PNone \<Rightarrow> PNum fill_v | Some given \<Rightarrow> given)"

text \<open>One round of the loop, for the item at \<open>index\<close>.\<close>

definition add_shape :: "pynum \<Rightarrow> pynum \<Rightarrow> nat \<Rightarrow> pyobj \<Rightarrow> loop_state \<Rightarrow> pyerr + loop_state" where
  "add_shape fill_v default_v index x st =
     (case unpack x of
        Inl e \<Rightarrow> Inl e
      | Inr (g, v) \<Rightarrow>
         (let value = burn_value fill_v default_v v; geom = geo_interface g in
          case is_valid_geom geom of
            Inl e \<Rightarrow> Inl e
          | Inr True \<Rightarrow>
             (let st1 = st\<lparr>shape_values := shape_values st @ [value]\<rparr> in
              case py_getitem geom ''type'' of
                Inl e \<Rightarrow> Inl e
              | Inr ty \<Rightarrow>
                 if ty = PStr ''GeometryCollection'' then
                   (case py_getitem geom ''geometries'' of
                      Inl e \<Rightarrow> Inl e
                    | Inr gs \<Rightarrow>
                       (case py_iter gs of
                          Inl e \<Rightarrow> Inl e
                        | Inr parts \<Rightarrow>
                           Inr (st1\<lparr>valid_shapes :=
                                  valid_shapes st1 @ map (\<lambda>part. (part, value)) parts\<rparr>)))
                 else Inr (st1\<lparr>valid_shapes := valid_shapes st1 @ [(geom, value)]\<rparr>))
          | Inr False \<Rightarrow> Inr (st\<lparr>warned := warned st @ [index]\<rparr>)))"

text \<open>The loop: the state it reaches, and the exception that ended it, if any.\<close>

fun shapes_loop ::
  "pynum \<Rightarrow> pynum \<Rightarrow> nat \<Rightarrow> pyobj list \<Rightarrow> loop_state \<Rightarrow> loop_state \<times> pyerr option" where
  "shapes_loop fill_v default_v index [] st = (st, None)"
| "shapes_loop fill_v default_v index (x # xs) st =
     (case add_shape fill_v default_v index x st of
        Inl e \<Rightarrow> (st, Some e)
      | Inr st' \<Rightarrow> shapes_loop fill_v default_v (Suc index) xs st')"

text \<open>The dtype of the result (lines 299 to 303).\<close>

definition resolve_dtype :: "engine \<Rightarrow> rasterize_args \<Rightarrow> pyobj list \<Rightarrow> pyerr + npdtype" where
  "resolve_dtype eng a vs =
     (case dtype a of
        None \<Rightarrow> Inr (get_minimum_dtype eng (vs @ [PNum (fill a)]))
      | Some d \<Rightarrow>
         if \<not> can_cast_dtype eng vs d then Inl (CastError ''shape values'' d) else Inr d)"

text \<open>The output array (lines 305 to 321).\<close>

definition output_array :: "engine \<Rightarrow> rasterize_args \<Rightarrow> pyobj list \<Rightarrow> npdtype \<Rightarrow> pyerr + ndarray" where
  "output_array eng a vs d =
     (case out a of
        Some arr \<Rightarrow>
         if arr_dtype arr \<notin> set valid_dtypes then Inl (InvalidDtype ''out'')
         else if \<not> can_cast_dtype eng vs (arr_dtype arr)
         then Inl (CastError ''shape values'' (arr_dtype arr))
         else Inr arr
      | None \<Rightarrow>
         (case out_shape a of
            Some sh \<Rightarrow>
             (case sh of
                [h, w] \<Rightarrow> Inr (filled d h w (fill a))
              | _ \<Rightarrow> Inl InvalidOutShape)
          | None \<Rightarrow> Inl NoOutShapeOrImage))"

text \<open>What follows the loop (lines 291 to 328).\<close>

definition finish :: "engine \<Rightarrow> rasterize_args \<Rightarrow> loop_state \<Rightarrow> pyerr + ndarray" where
  "finish eng a st =
     (if valid_shapes st = [] then Inl NoValidGeometry
      else if \<not> validate_dtype eng (shape_values st) valid_dtypes
      then Inl (InvalidDtype ''shape values'')
      else case resolve_dtype eng a (shape_values st) of
             Inl e \<Rightarrow> Inl e
           | Inr d \<Rightarrow>
              (case output_array eng a (shape_values st) d of
                 Inl e \<Rightarrow> Inl e
               | Inr arr \<Rightarrow>
                  if min (arr_height arr) (arr_width arr) = 0 then Inl ZeroSize
                  else (case native_rasterize eng (valid_shapes st) arr
                               (guard_transform (transform a)) (all_touched a) (merge_alg a) of
                          None \<Rightarrow> Inl NativeError
                        | Some result \<Rightarrow> Inr result)))"

text \<open>
  \<open>rasterize\<close>: the indexes of the warnings it has emitted, and the array it returns or
  the exception it raises.
\<close>

definition rasterize :: "engine \<Rightarrow> rasterize_args \<Rightarrow> nat list \<times> (pyerr + ndarray)" where
  "rasterize eng a =
     (case prechecks eng a of
        Some e \<Rightarrow> ([], Inl e)
      | None \<Rightarrow>
         (case shapes_loop (fill a) (default_value a) 0 (shapes a) loop_start of
            (st, Some e) \<Rightarrow> (warned st, Inl e)
          | (st, None) \<Rightarrow> (warned st, finish eng a st)))"

subsection \<open>The collaborators, from the spec\<close>

text \<open>
  Modelled from the spec: the module \<^verbatim>\<open>rasterio.dtypes\<close> (\<^verbatim>\<open>validate_dtype\<close>,
  \<^verbatim>\<open>can_cast_dtype\<close>, \<^verbatim>\<open>get_minimum_dtype\<close>) is not in \<^verbatim>\<open>src/\<close>. By the spec a value
  must be representable in the lattice of admissible dtypes, the values must be
  losslessly castable into a requested dtype, and the minimum dtype is the smallest
  lattice member that can hold every value, an unsigned type before the signed type of
  the same width and a float type only if no integer type will do. A dtype holds a
  number that it represents exactly: an integer type the integers of its range, a
  binary floating-point type the numbers \<open>m * 2 ^ e\<close> with \<open>m\<close> below \<open>2 ^ p\<close> in
  magnitude, for its precision \<open>p\<close>, and \<open>e\<close> in its exponent range. A boolean counts
  as the integer 0 or 1; no dtype holds an object that is no number.
\<close>

function normalize :: "int \<Rightarrow> int \<Rightarrow> int \<times> int" where
  "normalize m e = (if m \<noteq> 0 \<and> even m then normalize (m div 2) (e + 1) else (m, e))"
  by pat_completeness auto
termination
  by (relation "measure (\<lambda>(m, e). nat \<bar>m\<bar>)") auto

declare normalize.simps [simp del]

text \<open>A Python number as \<open>m * 2 ^ e\<close> with \<open>m\<close> odd or zero.\<close>

definition dyadic :: "pynum \<Rightarrow> int \<times> int" where
  "dyadic v = (case v of PyInt n \<Rightarrow> normalize n 0 | PyFloat m e \<Rightarrow> normalize m e)"

definition int_range :: "npdtype \<Rightarrow> (int \<times> int) option" where
  "int_range d =
     (case d of
        Int8 \<Rightarrow> Some (- 128, 127)
      | Int16 \<Rightarrow> Some (- 32768, 32767)
      | Int32 \<Rightarrow> Some (- 2147483648, 2147483647)
      | Int64 \<Rightarrow> Some (- 9223372036854775808, 9223372036854775807)
      | UInt8 \<Rightarrow> Some (0, 255)
      | UInt16 \<Rightarrow> Some (0, 65535)
      | UInt32 \<Rightarrow> Some (0, 4294967295)
      | UInt64 \<Rightarrow> Some (0, 18446744073709551615)
      | Bool8 \<Rightarrow> Some (0, 1)
      | _ \<Rightarrow> None)"

text \<open>Precision, least exponent of the last bit, and the power of two that is out of range.\<close>

definition float_format :: "npdtype \<Rightarrow> (nat \<times> int \<times> int) option" where
  "float_format d =
     (case d of
        Float16 \<Rightarrow> Some (11, - 24, 16)
      | Float32 \<Rightarrow> Some (24, - 149, 128)
      | Float64 \<Rightarrow> Some (53, - 1074, 1024)
      | Complex128 \<Rightarrow> Some (53, - 1074, 1024)
      | _ \<Rightarrow> None)"

definition can_hold :: "npdtype \<Rightarrow> pynum \<Rightarrow> bool" where
  "can_hold d v =
     (let (m, e) = dyadic v in
      case int_range d of
        Some (lo, hi) \<Rightarrow> m = 0 \<and> lo \<le> 0 \<or> (0 \<le> e \<and> lo \<le> m * 2 ^ nat e \<and> m * 2 ^ nat e \<le> hi)
      | None \<Rightarrow>
         (case float_format d of
            Some (p, emin, emax) \<Rightarrow>
              m = 0 \<or> (\<bar>m\<bar> < 2 ^ p \<and> emin \<le> e \<and> \<bar>m\<bar> * 2 ^ nat (e - emin) < 2 ^ nat (emax - emin))
          | None \<Rightarrow> False))"

definition as_number :: "pyobj \<Rightarrow> pynum option" where
  "as_number v =
     (case v of PNum n \<Rightarrow> Some n | PBool b \<Rightarrow> Some (PyInt (if b then 1 else 0)) | _ \<Rightarrow> None)"

definition holds_value :: "npdtype \<Rightarrow> pyobj \<Rightarrow> bool" where
  "holds_value d v = (case as_number v of Some n \<Rightarrow> can_hold d n | None \<Rightarrow> False)"

definition validate_dtype_spec :: "pyobj list \<Rightarrow> npdtype list \<Rightarrow> bool" where
  "validate_dtype_spec vs ds = list_all (\<lambda>v. list_ex (\<lambda>d. holds_value d v) ds) vs"

definition can_cast_dtype_spec :: "pyobj list \<Rightarrow> npdtype \<Rightarrow> bool" where
  "can_cast_dtype_spec vs d = list_all (holds_value d) vs"

text \<open>The lattice from the smallest member to the largest.\<close>

definition by_size :: "npdtype list" where
  "by_size = [UInt8, UInt16, Int16, UInt32, Int32, Float32, Float64]"

definition get_minimum_dtype_spec :: "pyobj list \<Rightarrow> npdtype" where
  "get_minimum_dtype_spec vs =
     (case find (\<lambda>d. list_all (holds_value d) vs) by_size of Some d \<Rightarrow> d | None \<Rightarrow> Float64)"

text \<open>
  The sum of two Python numbers, without the rounding or wrap-around of the array's
  dtype (with \<^verbatim>\<open>MergeAlg.add\<close> overflow is the caller's responsibility).
\<close>

fun num_add :: "pynum \<Rightarrow> pynum \<Rightarrow> pynum" where
  "num_add (PyInt a) (PyInt b) = PyInt (a + b)"
| "num_add (PyInt a) (PyFloat m e) =
     (if 0 \<le> e then PyFloat (a + m * 2 ^ nat e) 0 else PyFloat (a * 2 ^ nat (- e) + m) e)"
| "num_add (PyFloat m e) (PyInt b) =
     (if 0 \<le> e then PyFloat (m * 2 ^ nat e + b) 0 else PyFloat (m + b * 2 ^ nat (- e)) e)"
| "num_add (PyFloat m e) (PyFloat n k) =
     (if e \<le> k then PyFloat (m + n * 2 ^ nat (k - e)) e else PyFloat (m * 2 ^ nat (e - k) + n) k)"

definition merge_value :: "MergeAlg \<Rightarrow> pynum \<Rightarrow> pynum \<Rightarrow> pynum" where
  "merge_value alg old new = (case alg of Replace \<Rightarrow> new | Add \<Rightarrow> num_add old new)"

text \<open>
  Modelled from the spec: the native \<^verbatim>\<open>_rasterize\<close> is not in \<^verbatim>\<open>src/\<close>. It writes in
  place: shape after shape, every pixel the shape covers takes the shape's value
  (\<open>Replace\<close>) or has it added (\<open>Add\<close>), and no other pixel changes. Which pixels a
  geometry covers is the scan conversion \<open>cov\<close>, a parameter: \<open>cov t all_touched g row col\<close>.
  The pixel of the cell \<open>i\<close> is row \<open>i div width\<close>, column \<open>i mod width\<close>. A value that is
  no number, which \<^verbatim>\<open>validate_dtype\<close> has refused before, burns nothing.
\<close>

definition burn_shape ::
  "(affine \<Rightarrow> bool \<Rightarrow> pyobj \<Rightarrow> nat \<Rightarrow> nat \<Rightarrow> bool) \<Rightarrow> affine \<Rightarrow> bool \<Rightarrow> MergeAlg
     \<Rightarrow> ndarray \<Rightarrow> pyobj \<times> pyobj \<Rightarrow> ndarray" where
  "burn_shape cov t touched alg arr s =
     (case as_number (snd s) of
        None \<Rightarrow> arr
      | Some n \<Rightarrow>
         arr\<lparr>cells := map (\<lambda>(i, old).
             if cov t touched (fst s) (i div arr_width arr) (i mod arr_width arr)
             then merge_value alg old n else old) (enumerate 0 (cells arr))\<rparr>)"

definition rasterize_burn ::
  "(affine \<Rightarrow> bool \<Rightarrow> pyobj \<Rightarrow> nat \<Rightarrow> nat \<Rightarrow> bool) \<Rightarrow> (pyobj \<times> pyobj) list \<Rightarrow> ndarray
     \<Rightarrow> affine \<Rightarrow> bool \<Rightarrow> MergeAlg \<Rightarrow> ndarray option" where
  "rasterize_burn cov pairs arr t touched alg = Some (foldl (burn_shape cov t touched alg) arr pairs)"

text \<open>A scan conversion for the examples: every geometry covers every pixel.\<close>

definition covers_all :: "affine \<Rightarrow> bool \<Rightarrow> pyobj \<Rightarrow> nat \<Rightarrow> nat \<Rightarrow> bool" where
  "covers_all t touched g row col = True"

definition spec_engine :: "(affine \<Rightarrow> bool \<Rightarrow> pyobj \<Rightarrow> nat \<Rightarrow> nat \<Rightarrow> bool) \<Rightarrow> engine" where
  "spec_engine cov =
     \<lparr>validate_dtype = validate_dtype_spec, can_cast_dtype = can_cast_dtype_spec,
      get_minimum_dtype = get_minimum_dtype_spec, native_rasterize = rasterize_burn cov\<rparr>"

subsection \<open>What the loop is to compute\<close>

text \<open>The checks on \<open>fill\<close> and on \<open>default_value\<close> pass (lines 241 to 255).\<close>

definition params_ok :: "engine \<Rightarrow> rasterize_args \<Rightarrow> bool" where
  "params_ok eng a =
     ((num_val (fill a) = 0 \<or> check_param eng ''fill'' ''fill'' (fill a) (dtype a) = None)
      \<and> (num_val (default_value a) = 1
          \<or> check_param eng ''default_value'' ''default_vaue'' (default_value a) (dtype a) = None))"

text \<open>
  What unpacking and the validator make of an item: it is valid when the validator
  accepts its geometry, invalid when the validator rejects it, and otherwise unpacking
  or the validator raises.
\<close>

definition item_check :: "pyobj \<Rightarrow> pyerr + bool" where
  "item_check x =
     (case unpack x of Inl e \<Rightarrow> Inl e | Inr (g, v) \<Rightarrow> is_valid_geom (geo_interface g))"

definition valid_item :: "pyobj \<Rightarrow> bool" where
  "valid_item x = (item_check x = Inr True)"

definition invalid_item :: "pyobj \<Rightarrow> bool" where
  "invalid_item x = (item_check x = Inr False)"

text \<open>The geometry and the value of an item that can be unpacked.\<close>

definition item_geom :: "pyobj \<Rightarrow> pyobj" where
  "item_geom x = (case unpack x of Inl e \<Rightarrow> PNone | Inr (g, v) \<Rightarrow> geo_interface g)"

definition item_value :: "pynum \<Rightarrow> pynum \<Rightarrow> pyobj \<Rightarrow> pyobj" where
  "item_value fill_v default_v x =
     (case unpack x of Inl e \<Rightarrow> PNone | Inr (g, v) \<Rightarrow> burn_value fill_v default_v v)"

text \<open>
  Following the spec (normalize each item into a pair, \<open>default_value\<close> when no value
  is given and \<open>fill\<close> for an explicit \<^verbatim>\<open>None\<close>; flatten a \<open>GeometryCollection\<close> into
  its first-level members, each inheriting the parent's value): the members of a
  collection, the shapes a geometry is burned as (its members, or the geometry itself),
  and the pairs that an item is burned as.
\<close>

definition members :: "pyobj \<Rightarrow> pyobj list option" where
  "members g =
     (case g of
        PDict kvs \<Rightarrow>
         (if map_of kvs ''type'' = Some (PStr ''GeometryCollection'')
          then (case map_of kvs ''geometries'' of Some (PList ms) \<Rightarrow> Some ms | _ \<Rightarrow> Some [])
          else None)
      | _ \<Rightarrow> None)"

definition parts :: "pyobj \<Rightarrow> pyobj list" where
  "parts g = (case members g of Some ms \<Rightarrow> ms | None \<Rightarrow> [g])"

definition burned :: "pynum \<Rightarrow> pynum \<Rightarrow> pyobj \<Rightarrow> (pyobj \<times> pyobj) list" where
  "burned fill_v default_v x =
     map (\<lambda>part. (part, item_value fill_v default_v x)) (parts (item_geom x))"

text \<open>The array that \<open>rasterize\<close> hands to the native engine (lines 305 to 321).\<close>

definition start_array :: "rasterize_args \<Rightarrow> ndarray \<Rightarrow> bool" where
  "start_array a arr =
     (case out a of
        Some given \<Rightarrow> arr = given
      | None \<Rightarrow>
         (case out_shape a of
            Some [h, w] \<Rightarrow> arr_height arr = h \<and> arr_width arr = w
                            \<and> cells arr = replicate (h * w) (fill a)
          | _ \<Rightarrow> False))"

text \<open>The indexes, counted from \<open>i\<close>, of the invalid items of a list.\<close>

fun invalid_indexes :: "nat \<Rightarrow> pyobj list \<Rightarrow> nat list" where
  "invalid_indexes i [] = []"
| "invalid_indexes i (x # xs) = (if invalid_item x then [i] else []) @ invalid_indexes (Suc i) xs"

subsection \<open>The function \<open>geometry_mask\<close>\<close>

text \<open>A boolean array, and \<^verbatim>\<open>astype('bool')\<close>: a cell is true where the number is not zero.\<close>

record boolarray =
  mask_height :: nat
  mask_width :: nat
  mask_cells :: "bool list"

definition astype_bool :: "ndarray \<Rightarrow> boolarray" where
  "astype_bool arr =
     \<lparr>mask_height = arr_height arr, mask_width = arr_width arr,
      mask_cells = map (\<lambda>v. num_val v \<noteq> 0) (cells arr)\<rparr>"

text \<open>
  \<open>geometry_mask\<close> (lines 26 to 68): the warnings and the mask it returns, or the
  exception it raises.
\<close>

definition geometry_mask ::
  "engine \<Rightarrow> pyobj list \<Rightarrow> nat list \<Rightarrow> affine \<Rightarrow> bool \<Rightarrow> bool \<Rightarrow> nat list \<times> (pyerr + boolarray)" where
  "geometry_mask eng geometries shp t touched invert =
     (let (fill_v, mask_value) = (if invert then (PyInt 0, PyInt 1) else (PyInt 1, PyInt 0)) in
      case rasterize eng ((rasterize_defaults geometries)
             \<lparr>out_shape := Some shp, transform := t, all_touched := touched,
              fill := fill_v, default_value := mask_value\<rparr>) of
        (ws, Inl e) \<Rightarrow> (ws, Inl e)
      | (ws, Inr arr) \<Rightarrow> (ws, Inr (astype_bool arr)))"

text \<open>
  A pixel overlaps the shapes when the scan conversion \<open>cov\<close> has it covered by the
  geometry, or by a first-level member of the collection, of an item that the validator
  accepts.
\<close>

definition overlaps ::
  "(affine \<Rightarrow> bool \<Rightarrow> pyobj \<Rightarrow> nat \<Rightarrow> nat \<Rightarrow> bool) \<Rightarrow> affine \<Rightarrow> bool \<Rightarrow> pyobj list
     \<Rightarrow> nat \<Rightarrow> nat \<Rightarrow> bool" where
  "overlaps cov t touched geometries row col =
     list_ex (\<lambda>x. list_ex (\<lambda>part. cov t touched part row col) (parts (item_geom x)))
       (filter valid_item geometries)"

text \<open>The arguments of the call of \<open>rasterize\<close> that the claim names.\<close>

definition mask_args :: "pyobj list \<Rightarrow> nat list \<Rightarrow> affine \<Rightarrow> bool \<Rightarrow> pynum \<Rightarrow> pynum \<Rightarrow> rasterize_args" where
  "mask_args gs shp t touched fill_v mask_value =
     (rasterize_defaults gs)\<lparr>out_shape := Some shp, transform := t, all_touched := touched,
              fill := fill_v, default_value := mask_value\<rparr>"


section \<open>Properties of the validator\<close>

subsection \<open>Unfolding the validator\<close>

lemma is_valid_geom_dict:
  assumes "geo_interface g = PDict kvs"
  shows "is_valid_geom g =
    (case map_of kvs ''type'' of
       None \<Rightarrow> Inr False
     | Some (PStr t) \<Rightarrow>
         if t \<in> set geom_types then
           (case map_of kvs ''coordinates'' of
              None \<Rightarrow> Inr False
            | Some c \<Rightarrow> check_coords t c)
         else if t = ''GeometryCollection'' then
           (case map_of kvs ''geometries'' of
              None \<Rightarrow> Inr False
            | Some gs \<Rightarrow>
               (case py_len gs of
                  Inl e \<Rightarrow> Inl e
                | Inr n \<Rightarrow>
                    if n = 0 then Inr False
                    else (case py_iter gs of
                            Inl e \<Rightarrow> Inl e
                          | Inr ms \<Rightarrow> all_members is_valid_geom ms)))
         else Inr False
     | Some other \<Rightarrow> Inr False)"
proof -
  have mem: "\<And>k. (k \<in> fst ` set kvs) = (map_of kvs k \<noteq> None)"
    by (simp add: map_of_eq_None_iff)
  show ?thesis
    unfolding is_valid_geom.simps [of g] assms Let_def
    by (auto simp: mem geom_types_def split: option.splits pyobj.splits sum.splits bool.splits)
qed


lemma all_members_True_iff:
  "all_members f gs = Inr True \<longleftrightarrow> (\<forall>g\<in>set gs. f g = Inr True)"
  by (induction gs) (auto split: sum.splits)


lemma check_coords_flat:
  "check_coords ''Point'' (PList xs) = Inr (2 \<le> length xs)"
  "length xs < 2 \<Longrightarrow> check_coords ''LineString'' (PList xs) = Inr False"
  "length xs < 4 \<Longrightarrow> check_coords ''LinearRing'' (PList xs) = Inr False"
  by (simp_all add: check_coords_def len_ge_def and_then_def)

lemma check_coords_polygon:
  "check_coords ''Polygon'' (PList []) = Inr False"
  "length r < 4 \<Longrightarrow> check_coords ''Polygon'' (PList (PList r # rs)) = Inr False"
  by (simp_all add: check_coords_def len_ge_def and_then_def)

lemma len_at_numeral:
  "len_at (numeral k) x = (case py_item0 x of Inl e \<Rightarrow> Inl e | Inr y \<Rightarrow> len_at (pred_numeral k) y)"
  by (simp add: numeral_eq_Suc)

lemma check_coords_multi_empty:
  "check_coords ''MultiPoint'' (PList []) = Inr False"
  "check_coords ''MultiLineString'' (PList []) = Inr False"
  "check_coords ''MultiPolygon'' (PList []) = Inr False"
  by (simp_all add: check_coords_def len_ge_def and_then_def)

lemma check_coords_multi_first:
  "check_coords ''MultiPoint'' (PList (m # ms)) = check_coords ''Point'' m"
  "check_coords ''MultiLineString'' (PList (m # ms)) = check_coords ''LineString'' m"
  "check_coords ''MultiPolygon'' (PList (m # ms)) = check_coords ''Polygon'' m"
  by (simp_all add: check_coords_def len_ge_def and_then_def len_at_numeral)

lemma is_valid_geom_geometry:
  "t \<in> set geom_types \<Longrightarrow> is_valid_geom (geometry t c) = check_coords t c"
proof -
  assume t: "t \<in> set geom_types"
  have "geo_interface (geometry t c) = PDict [(''type'', PStr t), (''coordinates'', c)]"
    by (simp add: geometry_def)
  from is_valid_geom_dict [OF this] t show ?thesis by simp
qed

lemma reject_no_type:
  "geo_interface g = PDict kvs \<Longrightarrow> map_of kvs ''type'' = None \<Longrightarrow> is_valid_geom g = Inr False"
  by (simp add: is_valid_geom_dict)

lemma reject_unknown_type:
  assumes "geo_interface g = PDict kvs" and "map_of kvs ''type'' = Some v"
    and "v \<notin> PStr ` set (geom_types @ [''GeometryCollection''])"
  shows "is_valid_geom g = Inr False"
proof (cases v)
  case (PStr t)
  with assms(3) have "t \<notin> set geom_types" "t \<noteq> ''GeometryCollection''" by auto
  with assms(1,2) PStr show ?thesis by (simp add: is_valid_geom_dict)
qed (use assms(1,2) in \<open>simp_all add: is_valid_geom_dict\<close>)

lemma reject_no_coordinates:
  assumes "geo_interface g = PDict kvs" and "map_of kvs ''type'' = Some (PStr t)"
    and "t \<in> set geom_types" and "map_of kvs ''coordinates'' = None"
  shows "is_valid_geom g = Inr False"
  using assms by (simp add: is_valid_geom_dict)

lemma GeometryCollection_not_geom_type: "''GeometryCollection'' \<notin> set geom_types"
  by (simp add: geom_types_def)

lemma reject_no_geometries:
  assumes "geo_interface g = PDict kvs"
    and "map_of kvs ''type'' = Some (PStr ''GeometryCollection'')"
    and "map_of kvs ''geometries'' = None"
  shows "is_valid_geom g = Inr False"
  using assms GeometryCollection_not_geom_type by (simp add: is_valid_geom_dict)

lemma valid_coords:
  assumes "geo_interface g = PDict kvs" and "map_of kvs ''type'' = Some (PStr t)"
    and "t \<in> set geom_types" and "map_of kvs ''coordinates'' = Some c"
  shows "is_valid_geom g = check_coords t c"
  using assms by (simp add: is_valid_geom_dict)


lemma literal_geom_types:
  "''Point'' \<in> set geom_types" "''MultiPoint'' \<in> set geom_types"
  "''LineString'' \<in> set geom_types" "''LinearRing'' \<in> set geom_types"
  "''MultiLineString'' \<in> set geom_types" "''Polygon'' \<in> set geom_types"
  "''MultiPolygon'' \<in> set geom_types"
  by (simp_all add: geom_types_def)

subsection \<open>The loop over the shapes\<close>

lemma is_valid_geom_True_dict:
  assumes "is_valid_geom g = Inr True"
  shows "\<exists>kvs t. geo_interface g = PDict kvs \<and> map_of kvs ''type'' = Some (PStr t)
           \<and> (t \<in> set geom_types \<or> t = ''GeometryCollection'')"
proof (cases "geo_interface g")
  case (PDict kvs)
  show ?thesis
  proof (cases "map_of kvs ''type''")
    case None
    with PDict assms show ?thesis by (simp add: is_valid_geom_dict)
  next
    case (Some v)
    show ?thesis
    proof (cases v)
      case (PStr t)
      with PDict Some assms show ?thesis
        by (cases "t \<in> set geom_types"; cases "t = ''GeometryCollection''")
           (simp_all add: is_valid_geom_dict)
    qed (use PDict Some assms in \<open>simp_all add: is_valid_geom_dict\<close>)
  qed
next
  case PNone
  with assms show ?thesis by (simp add: is_valid_geom.simps [of g] Let_def)
next
  case (PBool b)
  with assms show ?thesis by (simp add: is_valid_geom.simps [of g] Let_def)
next
  case (PNum n)
  with assms show ?thesis by (simp add: is_valid_geom.simps [of g] Let_def)
next
  case (PStr s)
  with assms show ?thesis by (simp add: is_valid_geom.simps [of g] Let_def split: bool.splits)
next
  case (PList xs)
  with assms show ?thesis by (simp add: is_valid_geom.simps [of g] Let_def split: bool.splits)
next
  case (PGeo kvs)
  with assms show ?thesis by (simp add: is_valid_geom.simps [of g] Let_def)
qed

lemma is_valid_geom_string: "is_valid_geom (PStr s) = Inr False"
  by (simp add: is_valid_geom.simps [of "PStr s"] Let_def split: bool.splits)


lemma geo_interface_idem: "geo_interface (geo_interface g) = geo_interface g"
  by (cases g) auto

lemma item_geom_idem: "geo_interface (item_geom x) = item_geom x"
  by (simp add: item_geom_def geo_interface_idem split: sum.splits prod.splits)

lemma item_check_unpacked:
  "unpack x = Inr (g, v) \<Longrightarrow> item_check x = is_valid_geom (geo_interface g)"
  "unpack x = Inr (g, v) \<Longrightarrow> item_geom x = geo_interface g"
  "unpack x = Inr (g, v) \<Longrightarrow> item_value f d x = burn_value f d v"
  by (simp_all add: item_check_def item_geom_def item_value_def)

lemma item_check_Inr:
  "item_check x = Inr ok \<Longrightarrow> \<exists>g v. unpack x = Inr (g, v) \<and> is_valid_geom (geo_interface g) = Inr ok"
  by (cases "unpack x") (auto simp: item_check_def)

lemma item_check_Inl:
  "item_check x = Inl e \<longleftrightarrow>
     unpack x = Inl e \<or> (\<exists>g v. unpack x = Inr (g, v) \<and> is_valid_geom (geo_interface g) = Inl e)"
  by (cases "unpack x") (auto simp: item_check_def)

lemma unpack_cases:
  "unpack (PList [g, v]) = Inr (g, Some v)"
  "unpack (PList []) = Inl UnpackError"
  "unpack (PList [g]) = Inl UnpackError"
  "unpack (PList (g # v # w # ws)) = Inl UnpackError"
  "unpack PNone = Inr (PNone, None)"
  "unpack (PBool b) = Inr (PBool b, None)"
  "unpack (PNum n) = Inr (PNum n, None)"
  "unpack (PStr s) = Inr (PStr s, None)"
  "unpack (PDict kvs) = Inr (PDict kvs, None)"
  "unpack (PGeo kvs) = Inr (PGeo kvs, None)"
  by (simp_all add: unpack_def)

lemma valid_collection_members:
  assumes v: "is_valid_geom g = Inr True" and gi: "geo_interface g = PDict kvs"
    and ty: "map_of kvs ''type'' = Some (PStr ''GeometryCollection'')"
  shows "\<exists>ms. map_of kvs ''geometries'' = Some (PList ms) \<and> ms \<noteq> []
              \<and> (\<forall>m\<in>set ms. is_valid_geom m = Inr True)"
proof (cases "map_of kvs ''geometries''")
  case None
  with v ty show ?thesis
    by (simp add: is_valid_geom_dict [OF gi] GeometryCollection_not_geom_type)
next
  case (Some gs)
  have unf: "is_valid_geom g =
     (case py_len gs of Inl e \<Rightarrow> Inl e
      | Inr n \<Rightarrow> if n = 0 then Inr False
                 else (case py_iter gs of Inl e \<Rightarrow> Inl e
                       | Inr ms \<Rightarrow> all_members is_valid_geom ms))"
    using ty Some by (simp add: is_valid_geom_dict [OF gi] GeometryCollection_not_geom_type)
  show ?thesis
  proof (cases gs)
    case (PList ms)
    with v unf have "ms \<noteq> []" "all_members is_valid_geom ms = Inr True"
      by (auto split: if_splits)
    with Some PList show ?thesis by (simp add: all_members_True_iff)
  next
    case (PStr s)
    with v unf have "s \<noteq> []" "all_members is_valid_geom (map (\<lambda>c. PStr [c]) s) = Inr True"
      by (auto split: if_splits)
    then show ?thesis
      by (cases s) (simp_all add: is_valid_geom_string)
  next
    case (PDict d)
    with v unf have ne: "remdups (map fst d) \<noteq> []"
      and al: "all_members is_valid_geom (map PStr (remdups (map fst d))) = Inr True"
      by (auto split: if_splits)
    then show ?thesis
      by (cases "remdups (map fst d)") (simp_all add: is_valid_geom_string)
  qed (use v unf in simp_all)
qed

lemma members_of_valid:
  assumes v: "is_valid_geom g = Inr True" and gi: "geo_interface g = g"
  shows "(\<exists>kvs t. g = PDict kvs \<and> map_of kvs ''type'' = Some (PStr t) \<and> t \<in> set geom_types
            \<and> members g = None)
       \<or> (\<exists>kvs ms. g = PDict kvs \<and> map_of kvs ''type'' = Some (PStr ''GeometryCollection'')
            \<and> map_of kvs ''geometries'' = Some (PList ms) \<and> ms \<noteq> [] \<and> members g = Some ms)"
proof -
  from is_valid_geom_True_dict [OF v] gi obtain kvs t where
    g: "g = PDict kvs" and ty: "map_of kvs ''type'' = Some (PStr t)"
    and t: "t \<in> set geom_types \<or> t = ''GeometryCollection''" by auto
  from t show ?thesis
  proof
    assume tg: "t \<in> set geom_types"
    with GeometryCollection_not_geom_type have "t \<noteq> ''GeometryCollection''" by auto
    with g ty tg show ?thesis by (simp add: members_def)
  next
    assume tc: "t = ''GeometryCollection''"
    from valid_collection_members [OF v, of kvs] g ty tc gi obtain ms where
      "map_of kvs ''geometries'' = Some (PList ms)" "ms \<noteq> []" by auto
    with g ty tc show ?thesis by (simp add: members_def)
  qed
qed


lemma burned_eq:
  "burned f d x =
     (case members (item_geom x) of
        Some ms \<Rightarrow> map (\<lambda>m. (m, item_value f d x)) ms
      | None \<Rightarrow> [(item_geom x, item_value f d x)])"
  by (simp add: burned_def parts_def split: option.splits)

lemma add_shape_valid:
  assumes "valid_item x"
  shows "add_shape f d i x st =
     Inr (st\<lparr>valid_shapes := valid_shapes st @ burned f d x,
              shape_values := shape_values st @ [item_value f d x]\<rparr>)"
proof -
  from assms obtain g0 v0 where u: "unpack x = Inr (g0, v0)"
    and v: "is_valid_geom (geo_interface g0) = Inr True"
    using item_check_Inr [of x True] by (auto simp: valid_item_def)
  note iu = item_check_unpacked(2,3) [OF u]
  from members_of_valid [OF v geo_interface_idem] show ?thesis
  proof (elim disjE exE conjE)
    fix kvs t
    assume "geo_interface g0 = PDict kvs" "map_of kvs ''type'' = Some (PStr t)" "t \<in> set geom_types"
      "members (geo_interface g0) = None"
    moreover from this GeometryCollection_not_geom_type have "t \<noteq> ''GeometryCollection''" by auto
    ultimately show ?thesis using v u
      by (simp add: add_shape_def burned_eq iu Let_def)
  next
    fix kvs ms
    assume "geo_interface g0 = PDict kvs" "map_of kvs ''type'' = Some (PStr ''GeometryCollection'')"
      "map_of kvs ''geometries'' = Some (PList ms)" "ms \<noteq> []" "members (geo_interface g0) = Some ms"
    then show ?thesis using v u
      by (simp add: add_shape_def burned_eq iu Let_def)
  qed
qed

lemma add_shape_invalid:
  "invalid_item x \<Longrightarrow> add_shape f d i x st = Inr (st\<lparr>warned := warned st @ [i]\<rparr>)"
  using item_check_Inr [of x False]
  by (auto simp: invalid_item_def add_shape_def Let_def)

lemma add_shape_raises:
  "item_check x = Inl e \<Longrightarrow> add_shape f d i x st = Inl e"
  by (auto simp: item_check_Inl add_shape_def Let_def)

lemma burned_nonempty: "valid_item x \<Longrightarrow> burned f d x \<noteq> []"
proof -
  assume "valid_item x"
  then have v: "is_valid_geom (item_geom x) = Inr True"
    using item_check_Inr [of x True] by (auto simp: valid_item_def item_check_unpacked)
  from members_of_valid [OF v item_geom_idem] show ?thesis
    by (auto simp: burned_eq)
qed

lemma not_valid_and_invalid: "valid_item x \<Longrightarrow> \<not> invalid_item x"
  by (simp add: valid_item_def invalid_item_def)

lemma shapes_loop_closed:
  assumes "\<forall>x\<in>set xs. valid_item x \<or> invalid_item x"
  shows "shapes_loop f d i xs st =
     (st\<lparr>valid_shapes := valid_shapes st @ concat (map (burned f d) (filter valid_item xs)),
         shape_values := shape_values st @ map (item_value f d) (filter valid_item xs),
         warned := warned st @ invalid_indexes i xs\<rparr>, None)"
  using assms
proof (induction xs arbitrary: i st)
  case Nil
  then show ?case by simp
next
  case (Cons x xs)
  then have rest: "\<forall>y\<in>set xs. valid_item y \<or> invalid_item y" by simp
  from Cons.prems consider (v) "valid_item x" | (n) "invalid_item x" "\<not> valid_item x"
    using not_valid_and_invalid by auto
  then show ?case
  proof cases
    case v
    then have "\<not> invalid_item x" by (rule not_valid_and_invalid)
    with v show ?thesis
      by (simp add: add_shape_valid Cons.IH [OF rest])
  next
    case n
    then show ?thesis
      by (simp add: add_shape_invalid Cons.IH [OF rest])
  qed
qed

lemma invalid_indexes_upt:
  "invalid_indexes i xs = map (\<lambda>k. i + k) (filter (\<lambda>k. invalid_item (xs ! k)) [0..<length xs])"
proof (induction xs arbitrary: i)
  case Nil
  then show ?case by simp
next
  case (Cons x xs)
  have "[0..<Suc (length xs)] = 0 # map Suc [0..<length xs]"
    by (simp add: upt_conv_Cons map_Suc_upt del: upt_Suc)
  then show ?case
    by (simp add: Cons.IH filter_map comp_def del: upt_Suc)
qed

subsection \<open>The member loop, and sequences that are too short\<close>



lemma seq_shorterE:
  assumes "seq_shorter n c"
  obtains xs where "c = PList xs" "length xs < n"
  using assms by (cases c) (simp_all add: seq_shorter_def)

lemma first_failsE:
  assumes "first_fails p c"
  obtains x xs where "c = PList (x # xs)" "p x"
proof (cases c)
  case (PList ys)
  with assms that show ?thesis by (cases ys) (simp_all add: first_fails_def)
qed (use assms in \<open>simp_all add: first_fails_def\<close>)

lemma len_ge_PList: "len_ge 0 n (PList xs) = Inr (n \<le> length xs)"
  by (simp add: len_ge_def)

lemma len_ge_Suc_Cons: "len_ge (Suc d) n (PList (x # xs)) = len_ge d n x"
  by (simp add: len_ge_def)

lemma len_ge_numeral_Cons: "len_ge (numeral k) n (PList (x # xs)) = len_ge (pred_numeral k) n x"
  by (simp add: len_ge_def len_at_numeral)

lemma len_ge_1_Cons: "len_ge 1 n (PList (x # xs)) = len_ge 0 n x"
  by (simp add: len_ge_def)

lemma and_then_simps:
  "and_then (Inr True) b = b" "and_then (Inr False) b = Inr False" "and_then (Inl e) b = Inl e"
  by (simp_all add: and_then_def)

lemma fails_point: "seq_shorter 2 c \<Longrightarrow> check_coords ''Point'' c = Inr False"
  by (erule seq_shorterE) (simp add: check_coords_def len_ge_PList)

lemma fails_line:
  assumes "line_fails n c"
  shows "and_then (len_ge 0 n c) (len_ge (Suc 0) 2 c) = Inr False"
  using assms unfolding line_fails_def
proof (elim disjE)
  assume "seq_shorter n c"
  then show ?thesis
    by (elim seq_shorterE) (simp add: len_ge_PList and_then_simps)
next
  assume "first_fails (seq_shorter 2) c"
  then show ?thesis
    by (elim first_failsE seq_shorterE)
       (simp add: len_ge_PList len_ge_1_Cons len_ge_Suc_Cons and_then_def)
qed

lemma fails_linestring: "line_fails 2 c \<Longrightarrow> check_coords ''LineString'' c = Inr False"
  by (simp add: check_coords_def fails_line)

lemma fails_linearring: "line_fails 4 c \<Longrightarrow> check_coords ''LinearRing'' c = Inr False"
  by (simp add: check_coords_def fails_line)

lemma check_coords_polygon_Cons:
  "check_coords ''Polygon'' (PList (r # rs)) = and_then (len_ge 0 4 r) (len_ge (Suc 0) 2 r)"
  by (simp add: check_coords_def len_ge_def and_then_def len_at_numeral)

lemma fails_polygon: "polygon_fails c \<Longrightarrow> check_coords ''Polygon'' c = Inr False"
  unfolding polygon_fails_def
proof (erule disjE)
  assume "seq_shorter 1 c"
  then show ?thesis
    by (elim seq_shorterE) (simp add: check_coords_def len_ge_PList and_then_simps)
next
  assume "first_fails (line_fails 4) c"
  then show ?thesis
    by (elim first_failsE) (simp add: check_coords_polygon_Cons fails_line)
qed

lemma fails_multi:
  assumes "seq_shorter 1 c \<or> first_fails p c"
    and single: "\<And>m. p m \<Longrightarrow> check_coords t m = Inr False"
    and t: "t \<in> {''Point'', ''LineString'', ''Polygon''}"
  shows "check_coords (''Multi'' @ t) c = Inr False"
proof -
  from t consider (p) "t = ''Point''" | (l) "t = ''LineString''" | (y) "t = ''Polygon''" by blast
  then have em: "check_coords (''Multi'' @ t) (PList []) = Inr False"
    and fi: "\<And>m ms'. check_coords (''Multi'' @ t) (PList (m # ms')) = check_coords t m"
    by (cases; simp add: check_coords_multi_empty check_coords_multi_first)+
  from assms(1) show ?thesis
  proof
    assume "seq_shorter 1 c"
    then obtain xs where "c = PList xs" "length xs < 1" by (rule seq_shorterE)
    then have "c = PList []" by simp
    then show ?thesis using em by (simp only:)
  next
    assume "first_fails p c"
    then obtain m ms' where c: "c = PList (m # ms')" and "p m" by (rule first_failsE)
    then have "check_coords t m = Inr False" by (simp only: single)
    then show ?thesis using fi [of m ms'] c by (simp only:)
  qed
qed

lemma fails_cardinality_check:
  assumes "fails_cardinality t c"
  shows "check_coords t c = Inr False"
proof -
  consider (a) "t = ''Point''" | (b) "t = ''LineString''" | (c) "t = ''LinearRing''"
    | (d) "t = ''Polygon''" | (e) "t = ''MultiPoint''" | (f) "t = ''MultiLineString''"
    | (g) "t = ''MultiPolygon''"
    | (h) "t \<noteq> ''Point''" "t \<noteq> ''LineString''" "t \<noteq> ''LinearRing''" "t \<noteq> ''Polygon''"
          "t \<noteq> ''MultiPoint''" "t \<noteq> ''MultiLineString''" "t \<noteq> ''MultiPolygon''"
    by blast
  then show ?thesis
  proof cases
    case a
    with assms show ?thesis by (simp add: fails_cardinality_def fails_point)
  next
    case b
    with assms show ?thesis by (simp add: fails_cardinality_def fails_linestring)
  next
    case c
    with assms show ?thesis by (simp add: fails_cardinality_def fails_linearring)
  next
    case d
    with assms have "polygon_fails c" by (simp add: fails_cardinality_def)
    with d show ?thesis by (simp add: fails_polygon)
  next
    case e
    with assms have "seq_shorter 1 c \<or> first_fails (seq_shorter 2) c"
      by (simp add: fails_cardinality_def)
    from fails_multi [OF this, of "''Point''"] e show ?thesis by (simp add: fails_point)
  next
    case f
    with assms have "seq_shorter 1 c \<or> first_fails (line_fails 2) c"
      by (simp add: fails_cardinality_def)
    from fails_multi [OF this, of "''LineString''"] f show ?thesis by (simp add: fails_linestring)
  next
    case g
    with assms have "seq_shorter 1 c \<or> first_fails polygon_fails c"
      by (simp add: fails_cardinality_def)
    from fails_multi [OF this, of "''Polygon''"] g show ?thesis by (simp add: fails_polygon)
  next
    case h
    with assms show ?thesis by (simp add: fails_cardinality_def)
  qed
qed

lemma fails_cardinality_geom_type: "fails_cardinality t c \<Longrightarrow> t \<in> set geom_types"
  unfolding fails_cardinality_def geom_types_def
  by (simp split: if_splits)

lemma is_valid_geom_list: "is_valid_geom (PList xs) = Inr False"
  by (simp add: is_valid_geom.simps [of "PList xs"] Let_def split: bool.splits)

lemma is_valid_geom_not_container:
  "is_valid_geom PNone = Inl TypeError" "is_valid_geom (PBool b) = Inl TypeError"
  "is_valid_geom (PNum n) = Inl TypeError" "is_valid_geom (PGeo []) = Inl TypeError"
  by (simp_all add: is_valid_geom.simps [of PNone] is_valid_geom.simps [of "PBool b"]
      is_valid_geom.simps [of "PNum n"] is_valid_geom.simps [of "PGeo []"] Let_def)

lemma geo_interface_mapping:
  "g = PDict kvs \<or> (g = PGeo kvs \<and> kvs \<noteq> []) \<Longrightarrow> geo_interface g = PDict kvs"
  by auto

lemma reject_cardinality:
  assumes gi: "geo_interface g = PDict kvs" and ty: "map_of kvs ''type'' = Some (PStr t)"
    and co: "map_of kvs ''coordinates'' = Some c" and f: "fails_cardinality t c"
  shows "is_valid_geom g = Inr False"
  using valid_coords [OF gi ty fails_cardinality_geom_type [OF f] co] fails_cardinality_check [OF f]
  by simp

subsection \<open>The checks before the loop and the steps after it\<close>

lemma prechecks_ValueError: "prechecks eng a = Some e \<Longrightarrow> is_ValueError e"
  unfolding prechecks_def check_param_def
  by (auto split: option.splits if_splits)

lemma prechecks_shapes: "prechecks eng (a\<lparr>shapes := xs\<rparr>) = prechecks eng a"
  by (simp add: prechecks_def cong: option.case_cong if_cong)

lemma finish_shapes: "finish eng (a\<lparr>shapes := xs\<rparr>) st = finish eng a st"
  by (simp add: finish_def resolve_dtype_def output_array_def
      cong: sum.case_cong option.case_cong list.case_cong if_cong)

lemma finish_uses:
  "valid_shapes st = valid_shapes st' \<Longrightarrow> shape_values st = shape_values st'
     \<Longrightarrow> finish eng a st = finish eng a st'"
  by (simp add: finish_def cong: sum.case_cong if_cong)

lemma finish_NoValidGeometry:
  "finish eng a st = Inl NoValidGeometry \<longleftrightarrow> valid_shapes st = []"
  unfolding finish_def resolve_dtype_def output_array_def
  by (auto split: sum.splits option.splits list.splits if_splits)

lemma invalid_indexes_valid: "\<forall>x\<in>set xs. valid_item x \<Longrightarrow> invalid_indexes i xs = []"
  by (induction xs arbitrary: i) (auto dest: not_valid_and_invalid)

lemma concat_burned_empty:
  "concat (map (burned f d) (filter valid_item xs)) = [] \<longleftrightarrow> filter valid_item xs = []"
  by (induction xs) (auto dest: burned_nonempty)

lemma shapes_loop_raises:
  assumes "\<forall>p\<in>set ps. valid_item p \<or> invalid_item p"
    and "item_check x = Inl e"
  shows "shapes_loop f d i (ps @ x # ss) st =
     (st\<lparr>valid_shapes := valid_shapes st @ concat (map (burned f d) (filter valid_item ps)),
         shape_values := shape_values st @ map (item_value f d) (filter valid_item ps),
         warned := warned st @ invalid_indexes i ps\<rparr>, Some e)"
  using assms
proof (induction ps arbitrary: i st)
  case Nil
  then show ?case by (simp add: add_shape_raises)
next
  case (Cons p ps)
  then have rest: "\<forall>y\<in>set ps. valid_item y \<or> invalid_item y" by simp
  note ih = Cons.IH [OF rest Cons.prems(2)]
  from Cons.prems consider (v) "valid_item p" | (n) "invalid_item p" "\<not> valid_item p"
    using not_valid_and_invalid by auto
  then show ?case
  proof cases
    case v
    then have "\<not> invalid_item p" by (rule not_valid_and_invalid)
    with v show ?thesis by (simp add: add_shape_valid ih)
  next
    case n
    then show ?thesis by (simp add: add_shape_invalid ih)
  qed
qed


lemma invalid_indexes_0:
  "invalid_indexes 0 xs = filter (\<lambda>k. invalid_item (xs ! k)) [0..<length xs]"
  by (simp add: invalid_indexes_upt)

lemma rasterize_prechecks_fail:
  "prechecks eng a = Some e \<Longrightarrow> rasterize eng a = ([], Inl e)"
  by (simp add: rasterize_def)

lemma rasterize_loop_ok:
  assumes pc: "prechecks eng a = None"
    and nr: "\<forall>x\<in>set (shapes a). valid_item x \<or> invalid_item x"
  shows "rasterize eng a =
     (invalid_indexes 0 (shapes a),
      finish eng a \<lparr>valid_shapes = concat (map (burned (fill a) (default_value a))
                                     (filter valid_item (shapes a))),
                    shape_values = map (item_value (fill a) (default_value a))
                                     (filter valid_item (shapes a)),
                    warned = []\<rparr>)"
proof -
  let ?st = "loop_start\<lparr>valid_shapes := valid_shapes loop_start
                 @ concat (map (burned (fill a) (default_value a)) (filter valid_item (shapes a))),
               shape_values := shape_values loop_start
                 @ map (item_value (fill a) (default_value a)) (filter valid_item (shapes a)),
               warned := warned loop_start @ invalid_indexes 0 (shapes a)\<rparr>"
  have loop: "shapes_loop (fill a) (default_value a) 0 (shapes a) loop_start = (?st, None)"
    by (rule shapes_loop_closed [OF nr])
  have w: "warned ?st = invalid_indexes 0 (shapes a)" by (simp add: loop_start_def)
  have f: "finish eng a ?st =
      finish eng a \<lparr>valid_shapes = concat (map (burned (fill a) (default_value a))
                                     (filter valid_item (shapes a))),
                    shape_values = map (item_value (fill a) (default_value a))
                                     (filter valid_item (shapes a)),
                    warned = []\<rparr>"
    by (rule finish_uses) (simp_all add: loop_start_def)
  show ?thesis
    unfolding rasterize_def pc loop using w f by simp
qed

lemma rasterize_loop_raises:
  assumes pc: "prechecks eng a = None"
    and sh: "shapes a = ps @ x # ss"
    and nr: "\<forall>p\<in>set ps. valid_item p \<or> invalid_item p"
    and ra: "item_check x = Inl e"
  shows "rasterize eng a = (invalid_indexes 0 ps, Inl e)"
  unfolding rasterize_def pc sh shapes_loop_raises [OF nr ra]
  by (simp add: loop_start_def)

lemma rasterize_skips:
  assumes pc: "prechecks eng a = None"
    and nr: "\<forall>x\<in>set (shapes a). valid_item x \<or> invalid_item x"
  shows "snd (rasterize eng a) = snd (rasterize eng (a\<lparr>shapes := filter valid_item (shapes a)\<rparr>))"
proof -
  let ?a = "a\<lparr>shapes := filter valid_item (shapes a)\<rparr>"
  have pc': "prechecks eng ?a = None" using pc by (simp add: prechecks_shapes)
  have nr': "\<forall>x\<in>set (shapes ?a). valid_item x \<or> invalid_item x" by simp
  have "snd (rasterize eng ?a) =
      finish eng ?a \<lparr>valid_shapes = concat (map (burned (fill a) (default_value a))
                                     (filter valid_item (shapes a))),
                    shape_values = map (item_value (fill a) (default_value a))
                                     (filter valid_item (shapes a)),
                    warned = []\<rparr>"
    unfolding rasterize_loop_ok [OF pc' nr'] by simp
  then show ?thesis
    unfolding rasterize_loop_ok [OF pc nr] by (simp add: finish_shapes)
qed

lemma rasterize_no_valid:
  assumes pc: "prechecks eng a = None"
    and nr: "\<forall>x\<in>set (shapes a). valid_item x \<or> invalid_item x"
  shows "snd (rasterize eng a) = Inl NoValidGeometry \<longleftrightarrow> (\<forall>x\<in>set (shapes a). invalid_item x)"
proof -
  have "filter valid_item (shapes a) = [] \<longleftrightarrow> (\<forall>x\<in>set (shapes a). invalid_item x)"
    using nr not_valid_and_invalid by (auto simp: filter_empty_conv)
  moreover have "snd (rasterize eng a) = Inl NoValidGeometry
      \<longleftrightarrow> concat (map (burned (fill a) (default_value a)) (filter valid_item (shapes a))) = []"
    unfolding rasterize_loop_ok [OF pc nr] by (simp add: finish_NoValidGeometry)
  ultimately show ?thesis by (simp only: concat_burned_empty)
qed


lemma prechecks_params_ok:
  "params_ok eng a \<Longrightarrow>
     prechecks eng a = (case dtype a of None \<Rightarrow> None
        | Some d \<Rightarrow> if d \<notin> set valid_dtypes then Some (InvalidDtype ''dtype'') else None)"
  unfolding params_ok_def prechecks_def
  by (auto split: option.splits)

lemma prechecks_bad_dtype:
  "dtype a = Some d \<Longrightarrow> d \<notin> set valid_dtypes \<Longrightarrow> \<exists>e. prechecks eng a = Some e"
  unfolding prechecks_def
  by (auto split: option.splits)

lemma rasterize_cast_error:
  assumes dt: "dtype a = Some d" and pc: "prechecks eng a = None"
    and nr: "\<forall>x\<in>set (shapes a). valid_item x \<or> invalid_item x"
    and ex: "\<exists>x\<in>set (shapes a). valid_item x"
    and va: "validate_dtype eng (map (item_value (fill a) (default_value a))
                (filter valid_item (shapes a))) valid_dtypes"
    and nc: "\<not> can_cast_dtype eng (map (item_value (fill a) (default_value a))
                (filter valid_item (shapes a))) d"
  shows "snd (rasterize eng a) = Inl (CastError ''shape values'' d)"
proof -
  from ex have "filter valid_item (shapes a) \<noteq> []" by (simp add: filter_empty_conv)
  then have ne: "concat (map (burned (fill a) (default_value a)) (filter valid_item (shapes a))) \<noteq> []"
    by (simp only: concat_burned_empty not_False_eq_True)
  show ?thesis
    unfolding rasterize_loop_ok [OF pc nr]
    using ne va nc dt by (simp add: finish_def resolve_dtype_def)
qed

lemma valid_point_item:
  "valid_item (PList [geometry ''Point'' (xy 1 2), v])" "valid_item (geometry ''Point'' (xy 1 2))"
  by (simp_all add: valid_item_def item_check_def unpack_def geometry_def
      is_valid_geom_geometry [unfolded geometry_def] literal_geom_types check_coords_flat xy_def)

lemma spec_300:
  "validate_dtype_spec [PNum (PyInt 300)] valid_dtypes"
  "\<not> can_cast_dtype_spec [PNum (PyInt 300)] Int8"
  "\<not> can_cast_dtype_spec [PNum (PyInt 300)] UInt8"
  by code_simp+

lemma add_shape_cases:
  "add_shape f d i x st =
     (case item_check x of
        Inl e \<Rightarrow> Inl e
      | Inr ok \<Rightarrow>
         if ok then Inr (st\<lparr>valid_shapes := valid_shapes st @ burned f d x,
                             shape_values := shape_values st @ [item_value f d x]\<rparr>)
         else Inr (st\<lparr>warned := warned st @ [i]\<rparr>))"
proof (cases "item_check x")
  case (Inl e)
  then show ?thesis by (simp add: add_shape_raises)
next
  case (Inr ok)
  show ?thesis
  proof (cases ok)
    case True
    with Inr have "valid_item x" by (simp add: valid_item_def)
    with Inr True show ?thesis by (simp add: add_shape_valid)
  next
    case False
    with Inr have "invalid_item x" by (simp add: invalid_item_def)
    with Inr False show ?thesis by (simp add: add_shape_invalid)
  qed
qed

lemma shapes_loop_None:
  "shapes_loop f d i xs st = (st', None) \<Longrightarrow> \<forall>x\<in>set xs. valid_item x \<or> invalid_item x"
proof (induction xs arbitrary: i st)
  case Nil
  then show ?case by simp
next
  case (Cons x xs)
  show ?case
  proof (cases "item_check x")
    case (Inl e)
    with Cons.prems show ?thesis by (simp add: add_shape_raises)
  next
    case (Inr ok)
    then have x: "valid_item x \<or> invalid_item x"
      by (cases ok) (simp_all add: valid_item_def invalid_item_def)
    from Inr obtain st1 where "add_shape f d i x st = Inr st1"
      by (cases ok) (simp_all add: add_shape_cases)
    with Cons.prems have "shapes_loop f d (Suc i) xs st1 = (st', None)" by simp
    from Cons.IH [OF this] x show ?thesis by simp
  qed
qed

lemma burned_parts: "burned f d x = map (\<lambda>p. (p, item_value f d x)) (parts (item_geom x))"
  by (simp add: burned_eq parts_def split: option.splits)

lemma finish_Inr:
  assumes "finish eng a st = Inr arr"
  shows "\<exists>arr0. start_array a arr0
       \<and> native_rasterize eng (valid_shapes st) arr0 (transform a) (all_touched a) (merge_alg a)
           = Some arr"
proof -
  from assms obtain dt arr0 where
    oa: "output_array eng a (shape_values st) dt = Inr arr0"
    and arr: "native_rasterize eng (valid_shapes st) arr0
                (guard_transform (transform a)) (all_touched a) (merge_alg a) = Some arr"
    unfolding finish_def by (auto split: if_splits sum.splits option.splits)
  from oa have "start_array a arr0"
    unfolding output_array_def start_array_def
    by (auto simp: filled_def split: option.splits list.splits if_splits)
  with arr show ?thesis by (auto simp: guard_transform_def)
qed

lemma rasterize_Inr:
  assumes "rasterize eng a = (ws, Inr arr)"
  shows "\<exists>arr0. start_array a arr0
       \<and> native_rasterize eng
           (concat (map (burned (fill a) (default_value a)) (filter valid_item (shapes a))))
           arr0 (transform a) (all_touched a) (merge_alg a) = Some arr"
proof -
  from assms have pc: "prechecks eng a = None"
    by (cases "prechecks eng a") (simp_all add: rasterize_def)
  obtain st r where loop: "shapes_loop (fill a) (default_value a) 0 (shapes a) loop_start = (st, r)"
    by (cases "shapes_loop (fill a) (default_value a) 0 (shapes a) loop_start")
  with assms pc have r: "r = None" by (cases r) (simp_all add: rasterize_def)
  from loop r have nr: "\<forall>x\<in>set (shapes a). valid_item x \<or> invalid_item x"
    using shapes_loop_None by blast
  from assms have "finish eng a \<lparr>valid_shapes = concat (map (burned (fill a) (default_value a))
                                     (filter valid_item (shapes a))),
                    shape_values = map (item_value (fill a) (default_value a))
                                     (filter valid_item (shapes a)),
                    warned = []\<rparr> = Inr arr"
    unfolding rasterize_loop_ok [OF pc nr] by simp
  from finish_Inr [OF this] show ?thesis by simp
qed

lemma parts_simps:
  "map_of kvs ''type'' \<noteq> Some (PStr ''GeometryCollection'') \<Longrightarrow> parts (PDict kvs) = [PDict kvs]"
  "map_of kvs ''type'' = Some (PStr ''GeometryCollection'') \<Longrightarrow>
     map_of kvs ''geometries'' = Some (PList ms) \<Longrightarrow> parts (PDict kvs) = ms"
  by (simp_all add: parts_def members_def)

subsection \<open>The native engine of the spec, and masks\<close>

lemma burn_shape_keeps:
  "arr_width (burn_shape cov t touched alg arr s) = arr_width arr"
  "arr_height (burn_shape cov t touched alg arr s) = arr_height arr"
  "arr_dtype (burn_shape cov t touched alg arr s) = arr_dtype arr"
  "length (cells (burn_shape cov t touched alg arr s)) = length (cells arr)"
  by (simp_all add: burn_shape_def split: option.splits)

lemma burn_shape_cell:
  assumes "as_number (snd s) = Some n" and "i < length (cells arr)"
  shows "cells (burn_shape cov t touched alg arr s) ! i =
     (if cov t touched (fst s) (i div arr_width arr) (i mod arr_width arr)
      then merge_value alg (cells arr ! i) n else cells arr ! i)"
  using assms by (simp add: burn_shape_def nth_enumerate_eq)

lemma foldl_burn_keeps:
  "arr_width (foldl (burn_shape cov t touched alg) arr ss) = arr_width arr"
  "arr_height (foldl (burn_shape cov t touched alg) arr ss) = arr_height arr"
  "arr_dtype (foldl (burn_shape cov t touched alg) arr ss) = arr_dtype arr"
  "length (cells (foldl (burn_shape cov t touched alg) arr ss)) = length (cells arr)"
  by (induction ss arbitrary: arr) (simp_all add: burn_shape_keeps)


lemma foldl_burn_replace:
  assumes "i < length (cells arr)"
    and "\<forall>s\<in>set ss. snd s = PNum v"
  shows "cells (foldl (burn_shape cov t touched Replace) arr ss) ! i =
     (if \<exists>s\<in>set ss. cov t touched (fst s) (i div arr_width arr) (i mod arr_width arr)
      then v else cells arr ! i)"
  using assms
proof (induction ss arbitrary: arr rule: rev_induct)
  case Nil
  then show ?case by simp
next
  case (snoc s ss)
  let ?mid = "foldl (burn_shape cov t touched Replace) arr ss"
  have ih: "cells ?mid ! i =
     (if \<exists>s\<in>set ss. cov t touched (fst s) (i div arr_width arr) (i mod arr_width arr)
      then v else cells arr ! i)"
    using snoc.prems by (intro snoc.IH) simp_all
  have n: "as_number (snd s) = Some v" using snoc.prems(2) by (simp add: as_number_def)
  have l: "i < length (cells ?mid)" using snoc.prems(1) by (simp add: foldl_burn_keeps)
  from burn_shape_cell [OF n l, of cov t touched Replace] ih show ?case
    by (simp add: foldl_burn_keeps merge_value_def)
qed


lemma bare_item:
  assumes "\<not> is_sequence x"
  shows "item_value f d x = PNum d" "item_geom x = geo_interface x"
  using assms by (cases x; simp add: item_value_def item_geom_def unpack_def burn_value_def)+

lemma validate_dtype_spec_const:
  "\<forall>v\<in>set vs. v = c \<Longrightarrow> validate_dtype_spec [c] ds \<Longrightarrow> validate_dtype_spec vs ds"
  by (auto simp: validate_dtype_spec_def list_all_iff)

lemma spec_01:
  "validate_dtype_spec [PNum (PyInt 0)] valid_dtypes" "validate_dtype_spec [PNum (PyInt 1)] valid_dtypes"
  by code_simp+

lemma mask_prechecks:
  assumes "validate_dtype_spec [PNum fv] valid_dtypes" "validate_dtype_spec [PNum mv] valid_dtypes"
  shows "prechecks (spec_engine cov) (mask_args gs shp t touched fv mv) = None"
  using assms
  by (simp add: prechecks_def check_param_def mask_args_def rasterize_defaults_def spec_engine_def)

lemma rasterize_mask_closed:
  assumes vf: "validate_dtype_spec [PNum fv] valid_dtypes"
    and vm: "validate_dtype_spec [PNum mv] valid_dtypes"
    and bare: "\<forall>g\<in>set gs. \<not> is_sequence g"
    and nr: "\<forall>g\<in>set gs. valid_item g \<or> invalid_item g"
    and ex: "\<exists>g\<in>set gs. valid_item g"
    and pos: "0 < h" "0 < w"
  shows "\<exists>arr. rasterize (spec_engine cov) (mask_args gs [h, w] t touched fv mv)
        = (filter (\<lambda>k. invalid_item (gs ! k)) [0..<length gs], Inr arr)
      \<and> arr_height arr = h \<and> arr_width arr = w \<and> length (cells arr) = h * w
      \<and> (\<forall>i<h * w. cells arr ! i =
            (if overlaps cov t touched gs (i div w) (i mod w) then mv else fv))"
proof -
  let ?E = "spec_engine cov"
  let ?a = "mask_args gs [h, w] t touched fv mv"
  let ?pairs = "concat (map (burned fv mv) (filter valid_item gs))"
  let ?vals = "map (item_value fv mv) (filter valid_item gs)"
  have sh: "shapes ?a = gs" "fill ?a = fv" "default_value ?a = mv" "dtype ?a = None" "out ?a = None"
    "out_shape ?a = Some [h, w]" "transform ?a = t" "all_touched ?a = touched" "merge_alg ?a = Replace"
    by (simp_all add: mask_args_def rasterize_defaults_def)
  have pc: "prechecks ?E ?a = None" by (rule mask_prechecks [OF vf vm])
  have nr': "\<forall>x\<in>set (shapes ?a). valid_item x \<or> invalid_item x" using nr by (simp add: sh)
  from ex have "filter valid_item gs \<noteq> []" by (simp add: filter_empty_conv)
  then have ne: "?pairs \<noteq> []" by (simp only: concat_burned_empty not_False_eq_True)
  have "\<forall>v\<in>set ?vals. v = PNum mv" using bare by (auto simp: bare_item)
  then have va: "validate_dtype_spec ?vals valid_dtypes" using vm by (rule validate_dtype_spec_const)
  let ?d = "get_minimum_dtype_spec (?vals @ [PNum fv])"
  let ?start = "filled ?d h w fv"
  let ?arr = "foldl (burn_shape cov t touched Replace) ?start ?pairs"
  have fin: "finish ?E ?a \<lparr>valid_shapes = ?pairs, shape_values = ?vals, warned = []\<rparr> = Inr ?arr"
    using ne va pos
    by (simp add: finish_def resolve_dtype_def output_array_def sh spec_engine_def filled_def
        rasterize_burn_def guard_transform_def)
  have r: "rasterize ?E ?a = (filter (\<lambda>k. invalid_item (gs ! k)) [0..<length gs], Inr ?arr)"
    unfolding rasterize_loop_ok [OF pc nr'] sh using fin by (simp add: invalid_indexes_0)
  have dims: "arr_height ?arr = h" "arr_width ?arr = w" "length (cells ?arr) = h * w"
    by (simp_all add: foldl_burn_keeps filled_def)
  have snd: "\<forall>s\<in>set ?pairs. snd s = PNum mv"
    using bare by (auto simp: burned_def bare_item)
  have cell: "cells ?arr ! i = (if overlaps cov t touched gs (i div w) (i mod w) then mv else fv)"
    if "i < h * w" for i
  proof -
    from that have l: "i < length (cells ?start)" by (simp add: filled_def)
    have "(\<exists>s\<in>set ?pairs. cov t touched (fst s) (i div arr_width ?start) (i mod arr_width ?start))
        \<longleftrightarrow> overlaps cov t touched gs (i div w) (i mod w)"
      using bare by (auto simp: overlaps_def list_ex_iff burned_def bare_item filled_def)
    with foldl_burn_replace [OF l snd, of cov t touched] that show ?thesis
      by (simp add: filled_def)
  qed
  from r dims cell show ?thesis by blast
qed


lemma geometry_mask_unfold:
  "geometry_mask eng gs shp t touched invert =
     (case rasterize eng (mask_args gs shp t touched
              (PyInt (if invert then 0 else 1)) (PyInt (if invert then 1 else 0))) of
        (ws, r) \<Rightarrow> (ws, map_sum id astype_bool r))"
  by (simp add: geometry_mask_def mask_args_def split: prod.splits sum.splits)

subsection \<open>The minimum dtype of the spec\<close>














section \<open>Validity of a GeometryCollection\<close>




section \<open>What the validator rejects\<close>

text \<open>
  Claim C9, as the code has it, for every input object.
  \<^item> \<^verbatim>\<open>None\<close>, a boolean, a number and an object whose geo interface is empty are no
    containers: the test \<^verbatim>\<open>'type' not in geom\<close> raises a \<^verbatim>\<open>TypeError\<close>.
  \<^item> For a string or a sequence \<open>is_valid_geom\<close> returns \<open>False\<close>.
  \<^item> For a dictionary, or an object whose geo interface is a dictionary that is not
    empty, it returns \<open>False\<close>, and raises nothing, when the key \<open>type\<close> is missing, when
    its value is none of the eight type names (whatever object it is), when the key
    \<open>coordinates\<close> (for a \<open>GeometryCollection\<close>: \<open>geometries\<close>) is missing, and when the
    coordinates are sequences, as deep as the validator reads them, that fail the
    minimum cardinality of the type (\<open>fails_cardinality\<close>).
\<close>

theorem is_valid_geom_false_or_raises:
  "((g = PNone \<or> (\<exists>b. g = PBool b) \<or> (\<exists>n. g = PNum n) \<or> g = PGeo [])
      \<longrightarrow> is_valid_geom g = Inl TypeError)
 \<and> (((\<exists>s. g = PStr s) \<or> (\<exists>xs. g = PList xs)) \<longrightarrow> is_valid_geom g = Inr False)
 \<and> (\<forall>kvs. g = PDict kvs \<or> (g = PGeo kvs \<and> kvs \<noteq> []) \<longrightarrow>
       (map_of kvs ''type'' = None \<longrightarrow> is_valid_geom g = Inr False)
     \<and> (\<forall>v. map_of kvs ''type'' = Some v
             \<and> v \<notin> PStr ` set (geom_types @ [''GeometryCollection''])
           \<longrightarrow> is_valid_geom g = Inr False)
     \<and> (\<forall>t. map_of kvs ''type'' = Some (PStr t) \<and> t \<in> set geom_types
             \<and> map_of kvs ''coordinates'' = None
           \<longrightarrow> is_valid_geom g = Inr False)
     \<and> (map_of kvs ''type'' = Some (PStr ''GeometryCollection'')
             \<and> map_of kvs ''geometries'' = None
           \<longrightarrow> is_valid_geom g = Inr False)
     \<and> (\<forall>t c. map_of kvs ''type'' = Some (PStr t)
             \<and> map_of kvs ''coordinates'' = Some c \<and> fails_cardinality t c
           \<longrightarrow> is_valid_geom g = Inr False))"
proof (intro conjI allI impI)
  assume "g = PNone \<or> (\<exists>b. g = PBool b) \<or> (\<exists>n. g = PNum n) \<or> g = PGeo []"
  then show "is_valid_geom g = Inl TypeError"
    by (elim disjE exE) (simp_all only: is_valid_geom_not_container)
next
  assume "(\<exists>s. g = PStr s) \<or> (\<exists>xs. g = PList xs)"
  then show "is_valid_geom g = Inr False"
    by (elim disjE exE) (simp_all only: is_valid_geom_string is_valid_geom_list)
next
  fix kvs
  assume "g = PDict kvs \<or> (g = PGeo kvs \<and> kvs \<noteq> [])"
  then have gi: "geo_interface g = PDict kvs" by (rule geo_interface_mapping)
  {
    assume "map_of kvs ''type'' = None"
    then show "is_valid_geom g = Inr False" by (rule reject_no_type [OF gi])
  next
    fix v
    assume h: "map_of kvs ''type'' = Some v \<and> v \<notin> PStr ` set (geom_types @ [''GeometryCollection''])"
    show "is_valid_geom g = Inr False"
      using reject_unknown_type [OF gi conjunct1 [OF h] conjunct2 [OF h]] .
  next
    fix t
    assume h: "map_of kvs ''type'' = Some (PStr t) \<and> t \<in> set geom_types
          \<and> map_of kvs ''coordinates'' = None"
    then have "map_of kvs ''type'' = Some (PStr t)" "t \<in> set geom_types"
      "map_of kvs ''coordinates'' = None" by simp_all
    then show "is_valid_geom g = Inr False" by (rule reject_no_coordinates [OF gi])
  next
    assume h: "map_of kvs ''type'' = Some (PStr ''GeometryCollection'')
          \<and> map_of kvs ''geometries'' = None"
    show "is_valid_geom g = Inr False"
      using reject_no_geometries [OF gi conjunct1 [OF h] conjunct2 [OF h]] .
  next
    fix t c
    assume h: "map_of kvs ''type'' = Some (PStr t)
             \<and> map_of kvs ''coordinates'' = Some c \<and> fails_cardinality t c"
    show "is_valid_geom g = Inr False"
      using reject_cardinality [OF gi conjunct1 [OF h] conjunct1 [OF conjunct2 [OF h]]
          conjunct2 [OF conjunct2 [OF h]]] .
  }
qed

text \<open>
  The claim as stated (\<open>False\<close> and no exception, for every input object) fails on an
  input that is no container and on coordinates that hold a number where the validator
  takes a length: \<^verbatim>\<open>None\<close> has no key \<open>type\<close>, an object with the geo interface \<^verbatim>\<open>{}\<close>
  has none either, and the MultiLineString with the coordinates \<^verbatim>\<open>[[1, 2]]\<close> has no
  valid member; on each of them \<open>is_valid_geom\<close> raises a \<^verbatim>\<open>TypeError\<close>.
\<close>

theorem is_valid_geom_raises_counterexample:
  "is_valid_geom PNone = Inl TypeError
   \<and> is_valid_geom (PGeo []) = Inl TypeError
   \<and> is_valid_geom (geometry ''MultiLineString'' (PList [xy 1 2])) = Inl TypeError"
  by (simp add: is_valid_geom_not_container is_valid_geom_geometry literal_geom_types
      check_coords_def len_ge_def and_then_def len_at_numeral xy_def)

text \<open>The outcomes at concrete inputs, one for each case.\<close>

theorem is_valid_geom_false_or_raises_witness:
  "is_valid_geom (PNum (PyInt 3)) = Inl TypeError
   \<and> is_valid_geom (PStr ''Point'') = Inr False
   \<and> is_valid_geom (PDict [(''coordinates'', xy 1 2)]) = Inr False
   \<and> is_valid_geom (PGeo [(''coordinates'', xy 1 2)]) = Inr False
   \<and> is_valid_geom (PDict [(''type'', PStr ''Circle''), (''coordinates'', xy 1 2)]) = Inr False
   \<and> is_valid_geom (PDict [(''type'', PStr ''Point'')]) = Inr False
   \<and> is_valid_geom (PDict [(''type'', PStr ''GeometryCollection'')]) = Inr False
   \<and> is_valid_geom (geometry ''LineString'' (PList [xy 1 2])) = Inr False
   \<and> is_valid_geom (geometry ''Polygon'' (PList [PList [xy 0 0, xy 1 0, xy 0 0]])) = Inr False
   \<and> is_valid_geom (geometry ''MultiPoint'' (PList [PList [PNum (PyInt 1)]])) = Inr False
   \<and> is_valid_geom (geometry ''MultiPolygon'' (PList [PList [PList [xy 0 0, xy 1 0, xy 0 0]]]))
       = Inr False"
proof -
  note main = is_valid_geom_false_or_raises
  have r: "(map_of kvs ''type'' = None \<longrightarrow> is_valid_geom (PDict kvs) = Inr False)
     \<and> (\<forall>v. map_of kvs ''type'' = Some v
             \<and> v \<notin> PStr ` set (geom_types @ [''GeometryCollection''])
           \<longrightarrow> is_valid_geom (PDict kvs) = Inr False)
     \<and> (\<forall>t. map_of kvs ''type'' = Some (PStr t) \<and> t \<in> set geom_types
             \<and> map_of kvs ''coordinates'' = None
           \<longrightarrow> is_valid_geom (PDict kvs) = Inr False)
     \<and> (map_of kvs ''type'' = Some (PStr ''GeometryCollection'')
             \<and> map_of kvs ''geometries'' = None
           \<longrightarrow> is_valid_geom (PDict kvs) = Inr False)
     \<and> (\<forall>t c. map_of kvs ''type'' = Some (PStr t)
             \<and> map_of kvs ''coordinates'' = Some c \<and> fails_cardinality t c
           \<longrightarrow> is_valid_geom (PDict kvs) = Inr False)" for kvs
    by (rule main [of "PDict kvs", THEN conjunct2, THEN conjunct2, THEN spec, THEN mp]) simp
  have n: "is_valid_geom (PNum (PyInt 3)) = Inl TypeError"
    by (rule main [THEN conjunct1, THEN mp]) simp
  have s: "is_valid_geom (PStr ''Point'') = Inr False"
    by (rule main [THEN conjunct2, THEN conjunct1, THEN mp]) simp
  have a: "is_valid_geom (PDict [(''coordinates'', xy 1 2)]) = Inr False"
    by (rule r [THEN conjunct1, THEN mp]) simp
  have o: "is_valid_geom (PGeo [(''coordinates'', xy 1 2)]) = Inr False"
    by (rule main [of "PGeo [(''coordinates'', xy 1 2)]", THEN conjunct2, THEN conjunct2, THEN spec,
          THEN mp, THEN conjunct1, THEN mp, of "[(''coordinates'', xy 1 2)]"]) simp_all
  have b: "is_valid_geom (PDict [(''type'', PStr ''Circle''), (''coordinates'', xy 1 2)]) = Inr False"
    by (rule r [THEN conjunct2, THEN conjunct1, THEN spec, THEN mp, of _ "PStr ''Circle''"])
      (simp add: geom_types_def image_iff)
  have c: "is_valid_geom (PDict [(''type'', PStr ''Point'')]) = Inr False"
    by (rule r [THEN conjunct2, THEN conjunct2, THEN conjunct1, THEN spec, THEN mp, of _ "''Point''"])
      (simp add: literal_geom_types)
  have d: "is_valid_geom (PDict [(''type'', PStr ''GeometryCollection'')]) = Inr False"
    by (rule r [THEN conjunct2, THEN conjunct2, THEN conjunct2, THEN conjunct1, THEN mp]) simp
  note card = r [THEN conjunct2, THEN conjunct2, THEN conjunct2, THEN conjunct2,
          THEN spec, THEN spec, THEN mp]
  have e: "is_valid_geom (geometry ''LineString'' (PList [xy 1 2])) = Inr False"
    unfolding geometry_def
    by (rule card [of _ "''LineString''" "PList [xy 1 2]"])
      (simp add: fails_cardinality_def line_fails_def seq_shorter_def first_fails_def)
  have f: "is_valid_geom (geometry ''Polygon'' (PList [PList [xy 0 0, xy 1 0, xy 0 0]])) = Inr False"
    unfolding geometry_def
    by (rule card [of _ "''Polygon''" "PList [PList [xy 0 0, xy 1 0, xy 0 0]]"])
      (simp add: fails_cardinality_def polygon_fails_def line_fails_def seq_shorter_def first_fails_def)
  have h: "is_valid_geom (geometry ''MultiPoint'' (PList [PList [PNum (PyInt 1)]])) = Inr False"
    unfolding geometry_def
    by (rule card [of _ "''MultiPoint''" "PList [PList [PNum (PyInt 1)]]"])
      (simp add: fails_cardinality_def polygon_fails_def line_fails_def seq_shorter_def first_fails_def)
  have i: "is_valid_geom (geometry ''MultiPolygon'' (PList [PList [PList [xy 0 0, xy 1 0, xy 0 0]]]))
       = Inr False"
    unfolding geometry_def
    by (rule card [of _ "''MultiPolygon''" "PList [PList [PList [xy 0 0, xy 1 0, xy 0 0]]]"])
      (simp add: fails_cardinality_def polygon_fails_def line_fails_def seq_shorter_def first_fails_def)
  from n s a o b c d e f h i show ?thesis by (intro conjI)
qed


section \<open>Invalid shapes in \<open>rasterize\<close>\<close>

text \<open>
  Claim C1, as the code has it. \<open>rasterize\<close> first checks \<open>fill\<close>, \<open>default_value\<close> and
  \<open>dtype\<close>; if one of these checks fails it raises that \<^verbatim>\<open>ValueError\<close> and looks at
  no shape. Otherwise, if the validator returns on every item: the warnings name
  exactly the indexes of the items it rejects, the outcome of the call is that of the
  call without these items (an invalid shape is skipped and aborts nothing), and the
  call fails with \<open>NoValidGeometry\<close> if and only if the validator rejects every item.
  If unpacking an item raises, or the validator raises on its geometry, \<open>rasterize\<close>
  raises the same exception, after the warnings for the invalid items before it.
\<close>

theorem rasterize_invalid_shapes:
  "(\<forall>e. prechecks eng a = Some e \<longrightarrow> rasterize eng a = ([], Inl e) \<and> is_ValueError e)
 \<and> (prechecks eng a = None \<and> (\<forall>x\<in>set (shapes a). valid_item x \<or> invalid_item x) \<longrightarrow>
       fst (rasterize eng a) = filter (\<lambda>k. invalid_item (shapes a ! k)) [0..<length (shapes a)]
     \<and> snd (rasterize eng a) = snd (rasterize eng (a\<lparr>shapes := filter valid_item (shapes a)\<rparr>))
     \<and> (snd (rasterize eng a) = Inl NoValidGeometry \<longleftrightarrow> (\<forall>x\<in>set (shapes a). invalid_item x)))
 \<and> (\<forall>ps x ss e. prechecks eng a = None \<and> shapes a = ps @ x # ss
       \<and> (\<forall>p\<in>set ps. valid_item p \<or> invalid_item p) \<and> item_check x = Inl e \<longrightarrow>
       rasterize eng a = (filter (\<lambda>k. invalid_item (ps ! k)) [0..<length ps], Inl e))"
proof (intro conjI allI impI)
  fix e assume "prechecks eng a = Some e"
  then show "rasterize eng a = ([], Inl e)" by (rule rasterize_prechecks_fail)
next
  fix e assume "prechecks eng a = Some e"
  then show "is_ValueError e" by (rule prechecks_ValueError)
next
  assume h: "prechecks eng a = None \<and> (\<forall>x\<in>set (shapes a). valid_item x \<or> invalid_item x)"
  show "fst (rasterize eng a) = filter (\<lambda>k. invalid_item (shapes a ! k)) [0..<length (shapes a)]"
    unfolding rasterize_loop_ok [OF conjunct1 [OF h] conjunct2 [OF h]]
    by (simp add: invalid_indexes_0)
next
  assume h: "prechecks eng a = None \<and> (\<forall>x\<in>set (shapes a). valid_item x \<or> invalid_item x)"
  show "snd (rasterize eng a) = snd (rasterize eng (a\<lparr>shapes := filter valid_item (shapes a)\<rparr>))"
    by (rule rasterize_skips [OF conjunct1 [OF h] conjunct2 [OF h]])
next
  assume h: "prechecks eng a = None \<and> (\<forall>x\<in>set (shapes a). valid_item x \<or> invalid_item x)"
  show "snd (rasterize eng a) = Inl NoValidGeometry \<longleftrightarrow> (\<forall>x\<in>set (shapes a). invalid_item x)"
    by (rule rasterize_no_valid [OF conjunct1 [OF h] conjunct2 [OF h]])
next
  fix ps x ss e
  assume h: "prechecks eng a = None \<and> shapes a = ps @ x # ss
       \<and> (\<forall>p\<in>set ps. valid_item p \<or> invalid_item p) \<and> item_check x = Inl e"
  then have "prechecks eng a = None" "shapes a = ps @ x # ss"
    "\<forall>p\<in>set ps. valid_item p \<or> invalid_item p" "item_check x = Inl e"
    by simp_all
  then show "rasterize eng a = (filter (\<lambda>k. invalid_item (ps ! k)) [0..<length ps], Inl e)"
    by (simp only: rasterize_loop_raises invalid_indexes_0)
qed

text \<open>
  The claim as stated (a \<^verbatim>\<open>ValueError\<close> whenever no valid geometry remains, and only a
  warning for an invalid geometry) fails where the validator raises: for the geometry
  \<^verbatim>\<open>None\<close> and for a LineString with the coordinates \<^verbatim>\<open>[1, 2]\<close> the call raises a
  \<^verbatim>\<open>TypeError\<close> and emits no warning.
\<close>

theorem rasterize_None_geometry_counterexample:
  "rasterize (spec_engine covers_all) ((rasterize_defaults [PNone])\<lparr>out_shape := Some [2, 2]\<rparr>)
     = ([], Inl TypeError)
   \<and> rasterize (spec_engine covers_all)
       ((rasterize_defaults [geometry ''LineString'' (xy 1 2)])\<lparr>out_shape := Some [2, 2]\<rparr>)
     = ([], Inl TypeError)
   \<and> is_ValueError TypeError = False"
proof -
  have "item_check (geometry ''LineString'' (xy 1 2)) = Inl TypeError"
    by (simp add: item_check_def unpack_def geometry_def is_valid_geom_geometry [unfolded geometry_def]
        literal_geom_types check_coords_def len_ge_def and_then_def xy_def)
  then have l: "add_shape f d i (geometry ''LineString'' (xy 1 2)) st = Inl TypeError"
    for f d i st
    by (rule add_shape_raises)
  have "item_check PNone = Inl TypeError"
    by (simp add: item_check_def unpack_def is_valid_geom_not_container)
  then have "add_shape f d i PNone st = Inl TypeError" for f d i st
    by (rule add_shape_raises)
  then show ?thesis using l
    by (simp add: rasterize_def prechecks_def rasterize_defaults_def num_val_def loop_start_def)
qed


text \<open>
  The three cases at concrete calls: a dtype outside the lattice, two invalid shapes, and
  an invalid shape followed by \<^verbatim>\<open>None\<close>.
\<close>

theorem rasterize_invalid_shapes_witness:
  "rasterize (spec_engine covers_all) ((rasterize_defaults [])\<lparr>dtype := Some Int8\<rparr>)
     = ([], Inl (InvalidDtype ''dtype''))
   \<and> fst (rasterize (spec_engine covers_all)
        (rasterize_defaults [geometry ''Point'' (PList []),
                             PList [geometry ''LineString'' (PList []), PNone]])) = [0, 1]
   \<and> snd (rasterize (spec_engine covers_all)
        (rasterize_defaults [geometry ''Point'' (PList []),
                             PList [geometry ''LineString'' (PList []), PNone]]))
       = Inl NoValidGeometry
   \<and> rasterize (spec_engine covers_all)
        (rasterize_defaults [geometry ''Point'' (PList []), PNone,
                             geometry ''Point'' (xy 1 2)])
       = ([0], Inl TypeError)"
proof -
  let ?E = "spec_engine covers_all"
  let ?p = "geometry ''Point'' (PList [])"
  let ?l = "PList [geometry ''LineString'' (PList []), PNone]"
  note main = rasterize_invalid_shapes [of ?E]
  have pc: "prechecks ?E (rasterize_defaults xs) = None" for xs
    by (simp add: prechecks_def rasterize_defaults_def num_val_def)
  have pc8: "prechecks ?E ((rasterize_defaults [])\<lparr>dtype := Some Int8\<rparr>)
      = Some (InvalidDtype ''dtype'')"
    by (simp add: prechecks_def rasterize_defaults_def num_val_def valid_dtypes_def)
  have ip: "invalid_item ?p" and il: "invalid_item ?l"
    by (simp_all add: invalid_item_def item_check_def unpack_def geometry_def
        is_valid_geom_geometry [unfolded geometry_def] literal_geom_types check_coords_flat)
  have rn: "item_check PNone = Inl TypeError"
    by (simp add: item_check_def unpack_def is_valid_geom_not_container)
  have sh: "shapes (rasterize_defaults xs) = xs" for xs by (simp add: rasterize_defaults_def)
  have a: "rasterize ?E ((rasterize_defaults [])\<lparr>dtype := Some Int8\<rparr>)
      = ([], Inl (InvalidDtype ''dtype''))"
    using main [THEN conjunct1, THEN spec, THEN mp, OF pc8] by (rule conjunct1)
  have nr: "prechecks ?E (rasterize_defaults [?p, ?l]) = None
      \<and> (\<forall>x\<in>set (shapes (rasterize_defaults [?p, ?l])). valid_item x \<or> invalid_item x)"
    using ip il by (simp add: pc sh)
  note two = main [THEN conjunct2, THEN conjunct1, THEN mp, OF nr]
  have b: "fst (rasterize ?E (rasterize_defaults [?p, ?l])) = [0, 1]"
    using two [THEN conjunct1] ip il by (simp add: sh)
  have "\<forall>x\<in>set (shapes (rasterize_defaults [?p, ?l])). invalid_item x"
    using ip il by (simp add: sh)
  with two [THEN conjunct2, THEN conjunct2]
  have c: "snd (rasterize ?E (rasterize_defaults [?p, ?l])) = Inl NoValidGeometry" by blast
  have rz: "prechecks ?E (rasterize_defaults [?p, PNone, geometry ''Point'' (xy 1 2)]) = None
      \<and> shapes (rasterize_defaults [?p, PNone, geometry ''Point'' (xy 1 2)])
          = [?p] @ PNone # [geometry ''Point'' (xy 1 2)]
      \<and> (\<forall>q\<in>set [?p]. valid_item q \<or> invalid_item q)
      \<and> item_check PNone = Inl TypeError"
    using ip rn by (simp add: pc sh)
  have d: "rasterize ?E (rasterize_defaults [?p, PNone, geometry ''Point'' (xy 1 2)])
       = ([0], Inl TypeError)"
    using main [THEN conjunct2, THEN conjunct2, THEN spec, THEN spec, THEN spec, THEN spec,
        THEN mp, OF rz] ip by simp
  from a b c d show ?thesis by (intro conjI)
qed


section \<open>An explicit dtype\<close>

text \<open>
  Claim C8, as the code has it, for a call with an explicit \<open>dtype\<close>. The checks run in
  the order of the source, and the first that fails decides the error. If the dtype is
  no member of the lattice the call fails with a \<^verbatim>\<open>ValueError\<close> before it looks at any
  shape, and returns no array; the error is \<open>InvalidDtype\<close> for \<open>dtype\<close> when the checks
  on \<open>fill\<close> and \<open>default_value\<close>, which come first, pass. If the checks before the
  loop pass, every item is unpacked and validated without an exception, a valid shape
  exists, the values of
  the valid shapes are representable in the lattice and they cannot be cast to the
  dtype, the call fails with \<open>CastError\<close> for the shape values.
\<close>

theorem rasterize_explicit_dtype:
  assumes dt: "dtype a = Some d"
  shows
   "(d \<notin> set valid_dtypes \<longrightarrow> (\<exists>e. rasterize eng a = ([], Inl e) \<and> is_ValueError e))
  \<and> (d \<notin> set valid_dtypes \<and> params_ok eng a \<longrightarrow>
        rasterize eng a = ([], Inl (InvalidDtype ''dtype'')))
  \<and> (prechecks eng a = None \<and> (\<forall>x\<in>set (shapes a). valid_item x \<or> invalid_item x)
        \<and> (\<exists>x\<in>set (shapes a). valid_item x)
        \<and> validate_dtype eng (map (item_value (fill a) (default_value a))
                (filter valid_item (shapes a))) valid_dtypes
        \<and> \<not> can_cast_dtype eng (map (item_value (fill a) (default_value a))
                (filter valid_item (shapes a))) d \<longrightarrow>
        snd (rasterize eng a) = Inl (CastError ''shape values'' d))"
proof (intro conjI impI)
  assume "d \<notin> set valid_dtypes"
  with prechecks_bad_dtype [OF dt] obtain e where e: "prechecks eng a = Some e" by blast
  then have "rasterize eng a = ([], Inl e)" "is_ValueError e"
    by (simp_all add: rasterize_prechecks_fail prechecks_ValueError)
  then show "\<exists>e. rasterize eng a = ([], Inl e) \<and> is_ValueError e" by blast
next
  assume h: "d \<notin> set valid_dtypes \<and> params_ok eng a"
  then have "prechecks eng a = Some (InvalidDtype ''dtype'')"
    using dt by (simp add: prechecks_params_ok)
  then show "rasterize eng a = ([], Inl (InvalidDtype ''dtype''))"
    by (rule rasterize_prechecks_fail)
next
  assume h: "prechecks eng a = None \<and> (\<forall>x\<in>set (shapes a). valid_item x \<or> invalid_item x)
        \<and> (\<exists>x\<in>set (shapes a). valid_item x)
        \<and> validate_dtype eng (map (item_value (fill a) (default_value a))
                (filter valid_item (shapes a))) valid_dtypes
        \<and> \<not> can_cast_dtype eng (map (item_value (fill a) (default_value a))
                (filter valid_item (shapes a))) d"
  show "snd (rasterize eng a) = Inl (CastError ''shape values'' d)"
    using rasterize_cast_error [OF dt conjunct1 [OF h] conjunct1 [OF conjunct2 [OF h]]
        conjunct1 [OF conjunct2 [OF conjunct2 [OF h]]]
        conjunct1 [OF conjunct2 [OF conjunct2 [OF conjunct2 [OF h]]]]
        conjunct2 [OF conjunct2 [OF conjunct2 [OF conjunct2 [OF h]]]]] .
qed


text \<open>
  The claim as stated names the error of the dtype check and of the cast check whatever
  else the call holds. With the dtype \<open>int8\<close>, outside the lattice, and \<open>fill = 300\<close>
  the check of \<open>fill\<close> comes first and raises a \<open>CastError\<close>. With the dtype \<open>uint8\<close>, a
  valid shape of value 300 and a second shape \<^verbatim>\<open>None\<close>, the validator raises a
  \<^verbatim>\<open>TypeError\<close> in the loop, before the cast check.
\<close>

theorem rasterize_explicit_dtype_counterexample:
  "rasterize (spec_engine covers_all)
     ((rasterize_defaults [geometry ''Point'' (xy 1 2)])
        \<lparr>out_shape := Some [2, 2], fill := PyInt 300, dtype := Some Int8\<rparr>)
     = ([], Inl (CastError ''fill'' Int8))
   \<and> can_cast_dtype_spec [PNum (PyInt 300)] UInt8 = False
   \<and> rasterize (spec_engine covers_all)
     ((rasterize_defaults [PList [geometry ''Point'' (xy 1 2), PNum (PyInt 300)], PNone])
        \<lparr>out_shape := Some [2, 2], dtype := Some UInt8\<rparr>)
     = ([], Inl TypeError)"
proof -
  let ?E = "spec_engine covers_all"
  let ?a = "(rasterize_defaults [geometry ''Point'' (xy 1 2)])
        \<lparr>out_shape := Some [2, 2], fill := PyInt 300, dtype := Some Int8\<rparr>"
  let ?v = "PList [geometry ''Point'' (xy 1 2), PNum (PyInt 300)]"
  let ?b = "(rasterize_defaults [?v, PNone])\<lparr>out_shape := Some [2, 2], dtype := Some UInt8\<rparr>"
  have "prechecks ?E ?a = Some (CastError ''fill'' Int8)"
    using spec_300
    by (simp add: prechecks_def check_param_def spec_engine_def rasterize_defaults_def num_val_def)
  then have one: "rasterize ?E ?a = ([], Inl (CastError ''fill'' Int8))"
    by (rule rasterize_prechecks_fail)
  have pc: "prechecks ?E ?b = None"
    by (simp add: prechecks_def rasterize_defaults_def num_val_def valid_dtypes_def)
  have sh: "shapes ?b = [?v] @ PNone # []" by (simp add: rasterize_defaults_def)
  have nr: "\<forall>p\<in>set [?v]. valid_item p \<or> invalid_item p" using valid_point_item by simp
  have ra: "item_check PNone = Inl TypeError"
    by (simp add: item_check_def unpack_def is_valid_geom_not_container)
  have "\<not> invalid_item ?v" using valid_point_item(1) by (rule not_valid_and_invalid)
  then have two: "rasterize ?E ?b = ([], Inl TypeError)"
    unfolding rasterize_loop_raises [OF pc sh nr ra] by simp
  from one two spec_300(3) show ?thesis by simp
qed

text \<open>The dtype \<open>int8\<close>, and a value 300 for the dtype \<open>uint8\<close>.\<close>

theorem rasterize_explicit_dtype_witness:
  "rasterize (spec_engine covers_all)
     ((rasterize_defaults [geometry ''Point'' (xy 1 2)])
        \<lparr>out_shape := Some [2, 2], dtype := Some Int8\<rparr>)
     = ([], Inl (InvalidDtype ''dtype''))
   \<and> snd (rasterize (spec_engine covers_all)
     ((rasterize_defaults [PList [geometry ''Point'' (xy 1 2), PNum (PyInt 300)]])
        \<lparr>out_shape := Some [2, 2], dtype := Some UInt8\<rparr>))
     = Inl (CastError ''shape values'' UInt8)"
proof -
  let ?E = "spec_engine covers_all"
  let ?a = "(rasterize_defaults [geometry ''Point'' (xy 1 2)])
        \<lparr>out_shape := Some [2, 2], dtype := Some Int8\<rparr>"
  let ?v = "PList [geometry ''Point'' (xy 1 2), PNum (PyInt 300)]"
  let ?b = "(rasterize_defaults [?v])\<lparr>out_shape := Some [2, 2], dtype := Some UInt8\<rparr>"
  have da: "dtype ?a = Some Int8" and db: "dtype ?b = Some UInt8" by simp_all
  have ha: "Int8 \<notin> set valid_dtypes \<and> params_ok ?E ?a"
    by (simp add: valid_dtypes_def params_ok_def rasterize_defaults_def num_val_def)
  have one: "rasterize ?E ?a = ([], Inl (InvalidDtype ''dtype''))"
    using rasterize_explicit_dtype [OF da, of ?E, THEN conjunct2, THEN conjunct1, THEN mp, OF ha] .
  have pc: "prechecks ?E ?b = None"
    by (simp add: prechecks_def rasterize_defaults_def num_val_def valid_dtypes_def)
  have vs: "map (item_value (fill ?b) (default_value ?b)) (filter valid_item (shapes ?b))
      = [PNum (PyInt 300)]"
    using valid_point_item(1)
    by (simp add: rasterize_defaults_def item_value_def unpack_def burn_value_def)
  have hb: "prechecks ?E ?b = None \<and> (\<forall>x\<in>set (shapes ?b). valid_item x \<or> invalid_item x)
        \<and> (\<exists>x\<in>set (shapes ?b). valid_item x)
        \<and> validate_dtype ?E (map (item_value (fill ?b) (default_value ?b))
                (filter valid_item (shapes ?b))) valid_dtypes
        \<and> \<not> can_cast_dtype ?E (map (item_value (fill ?b) (default_value ?b))
                (filter valid_item (shapes ?b))) UInt8"
    unfolding vs using pc valid_point_item(1) spec_300
    by (simp add: rasterize_defaults_def spec_engine_def)
  have two: "snd (rasterize ?E ?b) = Inl (CastError ''shape values'' UInt8)"
    using rasterize_explicit_dtype [OF db, of ?E, THEN conjunct2, THEN conjunct2, THEN mp, OF hb] .
  from one two show ?thesis by simp
qed


section \<open>What an item is burned as\<close>

text \<open>
  Claim C7. One round of the loop of \<open>rasterize\<close> raises what unpacking the item or the
  validator raises, records a warning for an item the validator rejects, and for a
  valid item appends its value to the shape values and the pairs \<open>burned f d x\<close> to the
  valid shapes. These pairs carry the fill value for a pair with the value \<^verbatim>\<open>None\<close>,
  the given value for a pair with another value, and \<open>default_value\<close> for a bare
  geometry (an item that is no tuple or list); their geometries are the geometry
  itself or, for a \<open>GeometryCollection\<close>, its first-level members as they are, each with
  the value of the collection. An array that \<open>rasterize\<close> returns is the result of the
  native engine on the pairs of the valid items, in their order, and on the array
  supplied or allocated.
\<close>

theorem rasterize_burns_items:
  "add_shape f d i x st =
     (case item_check x of
        Inl e \<Rightarrow> Inl e
      | Inr ok \<Rightarrow>
         if ok then Inr (st\<lparr>valid_shapes := valid_shapes st @ burned f d x,
                             shape_values := shape_values st @ [item_value f d x]\<rparr>)
         else Inr (st\<lparr>warned := warned st @ [i]\<rparr>))
 \<and> burned f d (PList [g, PNone]) = map (\<lambda>p. (p, PNum f)) (parts (geo_interface g))
 \<and> (v \<noteq> PNone \<longrightarrow> burned f d (PList [g, v]) = map (\<lambda>p. (p, v)) (parts (geo_interface g)))
 \<and> (\<not> is_sequence x \<longrightarrow> burned f d x = map (\<lambda>p. (p, PNum d)) (parts (geo_interface x)))
 \<and> (\<forall>kvs. map_of kvs ''type'' \<noteq> Some (PStr ''GeometryCollection'')
        \<longrightarrow> parts (PDict kvs) = [PDict kvs])
 \<and> (\<forall>kvs ms. map_of kvs ''type'' = Some (PStr ''GeometryCollection'')
          \<and> map_of kvs ''geometries'' = Some (PList ms)
        \<longrightarrow> parts (PDict kvs) = ms)
 \<and> (\<forall>ws arr. rasterize eng a = (ws, Inr arr) \<longrightarrow>
       (\<exists>arr0. start_array a arr0
          \<and> native_rasterize eng
                (concat (map (burned (fill a) (default_value a)) (filter valid_item (shapes a))))
                arr0 (transform a) (all_touched a) (merge_alg a) = Some arr))"
proof (intro conjI allI impI)
  show "add_shape f d i x st =
     (case item_check x of
        Inl e \<Rightarrow> Inl e
      | Inr ok \<Rightarrow>
         if ok then Inr (st\<lparr>valid_shapes := valid_shapes st @ burned f d x,
                             shape_values := shape_values st @ [item_value f d x]\<rparr>)
         else Inr (st\<lparr>warned := warned st @ [i]\<rparr>))"
    by (rule add_shape_cases)
  show "burned f d (PList [g, PNone]) = map (\<lambda>p. (p, PNum f)) (parts (geo_interface g))"
    by (simp add: burned_def item_value_def item_geom_def unpack_def burn_value_def)
  show "burned f d (PList [g, v]) = map (\<lambda>p. (p, v)) (parts (geo_interface g))" if "v \<noteq> PNone"
    using that
    by (cases v) (simp_all add: burned_def item_value_def item_geom_def unpack_def burn_value_def)
  show "burned f d x = map (\<lambda>p. (p, PNum d)) (parts (geo_interface x))" if "\<not> is_sequence x"
    using that
    by (cases x) (simp_all add: burned_def item_value_def item_geom_def unpack_def burn_value_def)
  show "parts (PDict kvs) = [PDict kvs]"
    if "map_of kvs ''type'' \<noteq> Some (PStr ''GeometryCollection'')" for kvs
    using that by (rule parts_simps(1))
  show "parts (PDict kvs) = ms"
    if "map_of kvs ''type'' = Some (PStr ''GeometryCollection'')
          \<and> map_of kvs ''geometries'' = Some (PList ms)" for kvs ms
    using that by (simp add: parts_simps(2))
  show "\<exists>arr0. start_array a arr0
          \<and> native_rasterize eng
                (concat (map (burned (fill a) (default_value a)) (filter valid_item (shapes a))))
                arr0 (transform a) (all_touched a) (merge_alg a) = Some arr"
    if "rasterize eng a = (ws, Inr arr)" for ws arr
    using that by (rule rasterize_Inr)
qed

text \<open>
  A call with a pair of value \<^verbatim>\<open>None\<close> and a bare collection of two points: three
  shapes are burned, the first with the fill value 0 and the two members with the
  default value 1.
\<close>

theorem rasterize_burns_items_witness:
  "rasterize (spec_engine covers_all)
     ((rasterize_defaults [PList [geometry ''Point'' (xy 1 2), PNone],
          collection [geometry ''Point'' (xy 0 0), geometry ''Point'' (xy 5 5)]])
        \<lparr>out_shape := Some [1, 2]\<rparr>)
    = ([], Inr \<lparr>arr_dtype = UInt8, arr_height = 1, arr_width = 2, cells = [PyInt 1, PyInt 1]\<rparr>)
   \<and> (\<exists>arr0. cells arr0 = [PyInt 0, PyInt 0]
        \<and> rasterize_burn covers_all
              [(geometry ''Point'' (xy 1 2), PNum (PyInt 0)),
               (geometry ''Point'' (xy 0 0), PNum (PyInt 1)),
               (geometry ''Point'' (xy 5 5), PNum (PyInt 1))] arr0 IDENTITY False Replace
          = Some \<lparr>arr_dtype = UInt8, arr_height = 1, arr_width = 2, cells = [PyInt 1, PyInt 1]\<rparr>)
   \<and> parts (collection [geometry ''Point'' (xy 0 0), geometry ''Point'' (xy 5 5)])
       = [geometry ''Point'' (xy 0 0), geometry ''Point'' (xy 5 5)]"
proof -
  let ?E = "spec_engine covers_all"
  let ?p = "PList [geometry ''Point'' (xy 1 2), PNone]"
  let ?c = "collection [geometry ''Point'' (xy 0 0), geometry ''Point'' (xy 5 5)]"
  let ?a = "(rasterize_defaults [?p, ?c])\<lparr>out_shape := Some [1, 2]\<rparr>"
  let ?r = "\<lparr>arr_dtype = UInt8, arr_height = 1, arr_width = 2, cells = [PyInt 1, PyInt 1]\<rparr>"
  note main = rasterize_burns_items [of "PyInt 0" "PyInt 1" _ ?c _ _ _ ?E ?a]
  have ev: "rasterize ?E ?a = ([], Inr ?r)" by code_simp
  have vp: "valid_item ?p" and vc: "valid_item ?c" by code_simp+
  have pa: "parts ?c = [geometry ''Point'' (xy 0 0), geometry ''Point'' (xy 5 5)]"
    unfolding collection_def
    by (rule main [THEN conjunct2, THEN conjunct2, THEN conjunct2, THEN conjunct2, THEN conjunct2,
          THEN conjunct1, THEN spec, THEN spec, THEN mp]) simp
  have pp: "parts (geometry ''Point'' (xy 1 2)) = [geometry ''Point'' (xy 1 2)]"
    unfolding geometry_def
    by (rule main [THEN conjunct2, THEN conjunct2, THEN conjunct2, THEN conjunct2,
          THEN conjunct1, THEN spec, THEN mp]) simp
  have bp: "burned (PyInt 0) (PyInt 1) ?p = [(geometry ''Point'' (xy 1 2), PNum (PyInt 0))]"
    using main [THEN conjunct2, THEN conjunct1, of "geometry ''Point'' (xy 1 2)"] pp
    by (simp add: geometry_def)
  have "\<not> is_sequence ?c" by (simp add: collection_def)
  with main [THEN conjunct2, THEN conjunct2, THEN conjunct2, THEN conjunct1] pa
  have bc: "burned (PyInt 0) (PyInt 1) ?c
      = [(geometry ''Point'' (xy 0 0), PNum (PyInt 1)), (geometry ''Point'' (xy 5 5), PNum (PyInt 1))]"
    by (simp add: collection_def)
  from main [THEN conjunct2, THEN conjunct2, THEN conjunct2, THEN conjunct2, THEN conjunct2,
      THEN conjunct2, THEN spec, THEN spec, THEN mp, OF ev]
  obtain arr0 where s: "start_array ?a arr0"
    and b: "native_rasterize ?E
                (concat (map (burned (fill ?a) (default_value ?a)) (filter valid_item (shapes ?a))))
                arr0 (transform ?a) (all_touched ?a) (merge_alg ?a) = Some ?r"
    by blast
  from s have c0: "cells arr0 = [PyInt 0, PyInt 0]"
    by (simp add: start_array_def rasterize_defaults_def numeral_2_eq_2)
  from b vp vc bp bc have "rasterize_burn covers_all
              [(geometry ''Point'' (xy 1 2), PNum (PyInt 0)),
               (geometry ''Point'' (xy 0 0), PNum (PyInt 1)),
               (geometry ''Point'' (xy 5 5), PNum (PyInt 1))] arr0 IDENTITY False Replace = Some ?r"
    by (simp add: rasterize_defaults_def spec_engine_def)
  with c0 ev pa show ?thesis by blast
qed


section \<open>Masks\<close>

text \<open>
  Claim C10. \<open>geometry_mask\<close> is \<open>rasterize\<close> called with \<open>fill = 1\<close> and
  \<open>default_value = 0\<close>, or with \<open>fill = 0\<close> and \<open>default_value = 1\<close> when \<open>invert\<close> is set,
  and its array cast to \<^verbatim>\<open>bool\<close>; where \<open>rasterize\<close> raises, \<open>geometry_mask\<close> raises the
  same. Hence, with the native engine as the spec describes it, for geometries (no
  tuples or lists) on which the validator returns and of which one at least is valid,
  and an output shape with a positive height and width: the call returns the mask of
  that shape in which a pixel that overlaps a valid geometry is \<open>invert\<close> and every other
  pixel is the negation of \<open>invert\<close>.
\<close>

theorem geometry_mask_pixels:
  "geometry_mask eng gs shp t touched False =
     (case rasterize eng (mask_args gs shp t touched (PyInt 1) (PyInt 0)) of
        (ws, r) \<Rightarrow> (ws, map_sum id astype_bool r))
 \<and> geometry_mask eng gs shp t touched True =
     (case rasterize eng (mask_args gs shp t touched (PyInt 0) (PyInt 1)) of
        (ws, r) \<Rightarrow> (ws, map_sum id astype_bool r))
 \<and> ((\<forall>g\<in>set gs. \<not> is_sequence g \<and> (valid_item g \<or> invalid_item g))
      \<and> (\<exists>g\<in>set gs. valid_item g) \<and> 0 < h \<and> 0 < w \<longrightarrow>
     geometry_mask (spec_engine cov) gs [h, w] t touched invert =
       (filter (\<lambda>k. invalid_item (gs ! k)) [0..<length gs],
        Inr \<lparr>mask_height = h, mask_width = w,
             mask_cells = map (\<lambda>i. if overlaps cov t touched gs (i div w) (i mod w)
                                     then invert else \<not> invert) [0..<h * w]\<rparr>))"
proof (intro conjI impI)
  show "geometry_mask eng gs shp t touched False =
     (case rasterize eng (mask_args gs shp t touched (PyInt 1) (PyInt 0)) of
        (ws, r) \<Rightarrow> (ws, map_sum id astype_bool r))"
    using geometry_mask_unfold [of eng gs shp t touched False] by simp
  show "geometry_mask eng gs shp t touched True =
     (case rasterize eng (mask_args gs shp t touched (PyInt 0) (PyInt 1)) of
        (ws, r) \<Rightarrow> (ws, map_sum id astype_bool r))"
    using geometry_mask_unfold [of eng gs shp t touched True] by simp
next
  assume h: "(\<forall>g\<in>set gs. \<not> is_sequence g \<and> (valid_item g \<or> invalid_item g))
      \<and> (\<exists>g\<in>set gs. valid_item g) \<and> 0 < h \<and> 0 < w"
  then have bare: "\<forall>g\<in>set gs. \<not> is_sequence g"
    and nr: "\<forall>g\<in>set gs. valid_item g \<or> invalid_item g"
    and ex: "\<exists>g\<in>set gs. valid_item g" and pos: "0 < h" "0 < w"
    by simp_all
  let ?fv = "PyInt (if invert then 0 else 1)"
  let ?mv = "PyInt (if invert then 1 else 0)"
  have vf: "validate_dtype_spec [PNum ?fv] valid_dtypes"
    and vm: "validate_dtype_spec [PNum ?mv] valid_dtypes"
    using spec_01 by simp_all
  from rasterize_mask_closed [OF vf vm bare nr ex pos, of cov t touched]
  obtain arr where r: "rasterize (spec_engine cov) (mask_args gs [h, w] t touched ?fv ?mv)
        = (filter (\<lambda>k. invalid_item (gs ! k)) [0..<length gs], Inr arr)"
    and dims: "arr_height arr = h" "arr_width arr = w" "length (cells arr) = h * w"
    and cell: "\<forall>i<h * w. cells arr ! i =
            (if overlaps cov t touched gs (i div w) (i mod w) then ?mv else ?fv)"
    by blast
  have "map (\<lambda>v. num_val v \<noteq> 0) (cells arr)
      = map (\<lambda>i. if overlaps cov t touched gs (i div w) (i mod w)
                                     then invert else \<not> invert) [0..<h * w]"
    using dims(3) cell by (intro nth_equalityI) (simp_all add: num_val_def)
  then have "astype_bool arr = \<lparr>mask_height = h, mask_width = w,
             mask_cells = map (\<lambda>i. if overlaps cov t touched gs (i div w) (i mod w)
                                     then invert else \<not> invert) [0..<h * w]\<rparr>"
    using dims by (simp add: astype_bool_def)
  then show "geometry_mask (spec_engine cov) gs [h, w] t touched invert =
       (filter (\<lambda>k. invalid_item (gs ! k)) [0..<length gs],
        Inr \<lparr>mask_height = h, mask_width = w,
             mask_cells = map (\<lambda>i. if overlaps cov t touched gs (i div w) (i mod w)
                                     then invert else \<not> invert) [0..<h * w]\<rparr>)"
    unfolding geometry_mask_unfold r by simp
qed

text \<open>
  A valid point and an empty point on a raster of one row and two columns, for a scan
  conversion in which every geometry covers the first column: the second item is
  skipped with a warning, and the first pixel overlaps the point and the second does
  not.
\<close>

theorem geometry_mask_pixels_witness:
  "geometry_mask (spec_engine (\<lambda>t touched g row col. col = 0))
      [geometry ''Point'' (xy 1 2), geometry ''Point'' (PList [])] [1, 2] IDENTITY False False
     = ([1], Inr \<lparr>mask_height = 1, mask_width = 2, mask_cells = [False, True]\<rparr>)
   \<and> geometry_mask (spec_engine (\<lambda>t touched g row col. col = 0))
      [geometry ''Point'' (xy 1 2), geometry ''Point'' (PList [])] [1, 2] IDENTITY False True
     = ([1], Inr \<lparr>mask_height = 1, mask_width = 2, mask_cells = [True, False]\<rparr>)"
proof -
  let ?cov = "\<lambda>(t :: affine) (touched :: bool) (g :: pyobj) (row :: nat) (col :: nat). col = 0"
  let ?gs = "[geometry ''Point'' (xy 1 2), geometry ''Point'' (PList [])]"
  have v: "valid_item (geometry ''Point'' (xy 1 2))" "invalid_item (geometry ''Point'' (PList []))"
    "\<not> invalid_item (geometry ''Point'' (xy 1 2))"
    by code_simp+
  have b: "\<not> is_sequence (geometry ''Point'' (xy 1 2))" "\<not> is_sequence (geometry ''Point'' (PList []))"
    by (simp_all add: geometry_def)
  have hyp: "(\<forall>g\<in>set ?gs. \<not> is_sequence g \<and> (valid_item g \<or> invalid_item g))
      \<and> (\<exists>g\<in>set ?gs. valid_item g) \<and> 0 < (1::nat) \<and> 0 < (2::nat)"
    using v b by simp
  have w: "filter (\<lambda>k. invalid_item (?gs ! k)) [0..<length ?gs] = [1]"
    using v by (simp add: upt_conv_Cons)
  have o: "overlaps ?cov IDENTITY False ?gs 0 0" "\<not> overlaps ?cov IDENTITY False ?gs 0 1"
    by code_simp+
  have u: "[0..<1 * 2] = [0, Suc 0]" by (simp add: upt_conv_Cons)
  from geometry_mask_pixels [of _ ?gs _ IDENTITY False 1 2 ?cov False,
      THEN conjunct2, THEN conjunct2, THEN mp, OF hyp]
  have one: "geometry_mask (spec_engine ?cov) ?gs [1, 2] IDENTITY False False
     = ([1], Inr \<lparr>mask_height = 1, mask_width = 2, mask_cells = [False, True]\<rparr>)"
    unfolding w u using o by simp
  from geometry_mask_pixels [of _ ?gs _ IDENTITY False 1 2 ?cov True,
      THEN conjunct2, THEN conjunct2, THEN mp, OF hyp]
  have two: "geometry_mask (spec_engine ?cov) ?gs [1, 2] IDENTITY False True
     = ([1], Inr \<lparr>mask_height = 1, mask_width = 2, mask_cells = [True, False]\<rparr>)"
    unfolding w u using o by simp
  from one two show ?thesis by simp
qed


section \<open>The dtype and the array of the result\<close>



end
